theory Spec2Isabelle
  imports Main "HOL-Library.Word"
begin

section \<open>Shared data model\<close>

text \<open>
  The identifiers of the storage layer are fixed-width integers of the C++ code:
  \<^verbatim>\<open>GraphSpaceID\<close>, \<^verbatim>\<open>PartitionID\<close> and \<^verbatim>\<open>Port\<close> are \<^verbatim>\<open>int32_t\<close>,
  \<^verbatim>\<open>TermID\<close> and \<^verbatim>\<open>LogID\<close> are \<^verbatim>\<open>int64_t\<close>.
\<close>

type_synonym GraphSpaceID = "32 word"
type_synonym PartitionID = "32 word"
type_synonym Port = "32 word"
type_synonym TermID = "64 word"
type_synonym LogID = "64 word"

record HostAddr =
  host :: string
  port :: Port

text \<open>
  \<^verbatim>\<open>nebula::cpp2::ErrorCode\<close>, an enum generated from an interface file that is not
  among the source files: the codes that the two source files name, and one constructor
  for every other enumerator (carrying its name).
\<close>

datatype ErrorCode =
    SUCCEEDED
  | E_RPC_FAILURE
  | E_LEADER_CHANGED
  | E_SPACE_NOT_FOUND
  | E_UNKNOWN
  | E_OTHER string

text \<open>
  \<^verbatim>\<open>Status::Code\<close>, \<^verbatim>\<open>Status\<close>, \<^verbatim>\<open>StatusOr<T>\<close> and \<^verbatim>\<open>folly::Try<T>\<close>.
  A \<^verbatim>\<open>StatusOr\<close> is \<^verbatim>\<open>ok()\<close> exactly when it holds a value; a \<^verbatim>\<open>Try\<close>
  \<^verbatim>\<open>hasValue()\<close> exactly when it does not hold an exception.
\<close>

datatype StatusCode = kOk | kError | kLeaderChanged | kOtherCode string

record Status =
  status_code :: StatusCode
  status_msg :: string

datatype 'a StatusOr = StatusOrValue 'a | StatusOrStatus Status

datatype 'a Try = TryValue 'a | TryException string

fun ok :: "'a StatusOr \<Rightarrow> bool" where
  "ok (StatusOrValue v) = True"
| "ok (StatusOrStatus s) = False"

fun hasValue :: "'a Try \<Rightarrow> bool" where
  "hasValue (TryValue v) = True"
| "hasValue (TryException e) = False"

text \<open>
  The structured storage response: \<^verbatim>\<open>get_result().get_failed_parts()\<close> is a vector of
  \<^verbatim>\<open>PartitionResult\<close>, each with a \<^verbatim>\<open>code\<close>.
\<close>

record PartitionResult =
  code :: ErrorCode
  part_id :: PartitionID

record ResponseCommon =
  failed_parts :: "PartitionResult list"

record ExecResponse =
  result :: ResponseCommon

section \<open>InternalStorageClient.cpp: error-code extraction\<close>

text \<open>
  \<^verbatim>\<open>getErrorCode(T& tryResp)\<close>: the range-for over the failed parts returns in its
  first iteration, so it yields the code of the first entry when there is one.
\<close>

fun getErrorCode :: "ExecResponse StatusOr Try \<Rightarrow> ErrorCode" where
  "getErrorCode (TryException e) = E_RPC_FAILURE"
| "getErrorCode (TryValue (StatusOrStatus st)) =
     (case status_code st of
        kLeaderChanged \<Rightarrow> E_LEADER_CHANGED
      | _ \<Rightarrow> E_UNKNOWN)"
| "getErrorCode (TryValue (StatusOrValue resp)) =
     (case failed_parts (result resp) of
        p # ps \<Rightarrow> code p
      | [] \<Rightarrow> SUCCEEDED)"

section \<open>InternalStorageClient.cpp: the chain operations\<close>

text \<open>
  The thrift requests. Only the fields that the client reads or writes are spelled out;
  the rest of a mutation (edge keys, properties, conditions) is an opaque payload. The
  \<^verbatim>\<open>parts\<close> of a request is a map from partition id to a batch; it is kept as the
  list of its entries in iteration order, so that \<^verbatim>\<open>begin()\<close> is the head of the list.
\<close>

record UpdateEdgeRequest =
  ue_space_id :: GraphSpaceID
  ue_part_id :: PartitionID
  ue_payload :: string

record ChainUpdateEdgeRequest =
  cue_update_edge_request :: UpdateEdgeRequest
  cue_term :: TermID
  cue_edge_version :: "64 word option"

record AddEdgesRequest =
  ae_space_id :: GraphSpaceID
  ae_parts :: "(PartitionID \<times> string list) list"
  ae_prop_names :: "string list"
  ae_if_not_exists :: bool

record ChainAddEdgesRequest =
  cae_space_id :: GraphSpaceID
  cae_parts :: "(PartitionID \<times> string list) list"
  cae_prop_names :: "string list"
  cae_if_not_exists :: bool
  cae_term :: TermID
  cae_edge_version :: "64 word option"

record DeleteEdgesRequest =
  de_space_id :: GraphSpaceID
  de_parts :: "(PartitionID \<times> string list) list"

record ChainDeleteEdgesRequest =
  cde_space_id :: GraphSpaceID
  cde_parts :: "(PartitionID \<times> string list) list"
  cde_txn_id :: string
  cde_term :: TermID

datatype ChainRequest =
    ChainUpdateEdge ChainUpdateEdgeRequest
  | ChainAddEdges ChainAddEdgesRequest
  | ChainDeleteEdges ChainDeleteEdgesRequest

text \<open>
  A \<^verbatim>\<open>folly::EventBase*\<close> is an address. What a chain operation does to the outside
  is recorded as a trace of events, oldest first: a leader lookup, a request handed to
  \<^verbatim>\<open>getResponse\<close> (with the event base, the target and the request), a sleep, and a
  \<^verbatim>\<open>setValue\<close> on the promise of the operation.
\<close>

type_synonym EventBasePtr = nat

datatype event =
    EvGetLeader GraphSpaceID PartitionID
  | EvSend EventBasePtr HostAddr ChainRequest
  | EvSleepMs nat
  | EvSetValue ErrorCode

fun numLookups :: "event list \<Rightarrow> nat" where
  "numLookups [] = 0"
| "numLookups (EvGetLeader s p # tr) = Suc (numLookups tr)"
| "numLookups (e # tr) = numLookups tr"

fun numSends :: "event list \<Rightarrow> nat" where
  "numSends [] = 0"
| "numSends (EvSend b h r # tr) = Suc (numSends tr)"
| "numSends (e # tr) = numSends tr"

fun resolutions :: "event list \<Rightarrow> ErrorCode list" where
  "resolutions [] = []"
| "resolutions (EvSetValue v # tr) = v # resolutions tr"
| "resolutions (e # tr) = resolutions tr"

fun sleeps :: "event list \<Rightarrow> nat list" where
  "sleeps [] = []"
| "sleeps (EvSleepMs n # tr) = n # sleeps tr"
| "sleeps (e # tr) = sleeps tr"

fun sends :: "event list \<Rightarrow> (EventBasePtr \<times> HostAddr \<times> ChainRequest) list" where
  "sends [] = []"
| "sends (EvSend b h r # tr) = (b, h, r) # sends tr"
| "sends (e # tr) = sends tr"

fun lookups :: "event list \<Rightarrow> (GraphSpaceID \<times> PartitionID) list" where
  "lookups [] = []"
| "lookups (EvGetLeader s p # tr) = (s, p) # lookups tr"
| "lookups (e # tr) = lookups tr"

text \<open>
  What the code can fail with besides an error code: dereferencing \<^verbatim>\<open>begin()\<close> of an
  empty map, and \<^verbatim>\<open>setValue\<close> on a promise that is already fulfilled, which folly
  answers with the exception \<^verbatim>\<open>PromiseAlreadySatisfied\<close>.
\<close>

datatype failure = UndefinedBehaviour | PromiseAlreadySatisfied

definition setValue :: "ErrorCode \<Rightarrow> event list \<Rightarrow> failure + event list" where
  "setValue v tr =
     (if resolutions tr = [] then Inr (tr @ [EvSetValue v]) else Inl PromiseAlreadySatisfied)"

text \<open>
  The client and its collaborators, none of which is in the two source files:
  \<^verbatim>\<open>getLeader\<close> and \<^verbatim>\<open>getResponse\<close> of the client's base class, the constant
  \<^verbatim>\<open>kInternalPortOffset\<close> and the default argument of the parameter \<^verbatim>\<open>evb\<close> in the
  header. They are parameters here. The answer of a collaborator may change from one
  call to the next, so each takes the number of earlier calls as its first argument.
\<close>

record InternalStorageClient =
  getLeader :: "nat \<Rightarrow> GraphSpaceID \<Rightarrow> PartitionID \<Rightarrow> HostAddr StatusOr"
  getResponse :: "nat \<Rightarrow> EventBasePtr \<Rightarrow> HostAddr \<Rightarrow> ChainRequest \<Rightarrow> ExecResponse StatusOr Try"
  kInternalPortOffset :: Port
  defaultEvb :: EventBasePtr

text \<open>
  \<^verbatim>\<open>leader.port += kInternalPortOffset\<close>, and the chained requests: the one that
  chainUpdateEdge fills in (the version only when \<^verbatim>\<open>optVersion\<close> holds one), the
  source's \<^verbatim>\<open>makeChainAddReq\<close>, and the one that chainDeleteEdges fills in.
\<close>

definition internalAddr :: "InternalStorageClient \<Rightarrow> HostAddr \<Rightarrow> HostAddr" where
  "internalAddr c leader = leader\<lparr>port := port leader + kInternalPortOffset c\<rparr>"

definition makeChainUpdateReq ::
  "UpdateEdgeRequest \<Rightarrow> TermID \<Rightarrow> 64 word option \<Rightarrow> ChainUpdateEdgeRequest" where
  "makeChainUpdateReq reversedRequest termOfSrc optVersion =
     \<lparr>cue_update_edge_request = reversedRequest, cue_term = termOfSrc,
      cue_edge_version = optVersion\<rparr>"

definition makeChainAddReq ::
  "AddEdgesRequest \<Rightarrow> TermID \<Rightarrow> 64 word option \<Rightarrow> ChainAddEdgesRequest" where
  "makeChainAddReq req termId ver =
     \<lparr>cae_space_id = ae_space_id req, cae_parts = ae_parts req,
      cae_prop_names = ae_prop_names req, cae_if_not_exists = ae_if_not_exists req,
      cae_term = termId, cae_edge_version = ver\<rparr>"

definition makeChainDeleteReq ::
  "DeleteEdgesRequest \<Rightarrow> string \<Rightarrow> TermID \<Rightarrow> ChainDeleteEdgesRequest" where
  "makeChainDeleteReq req txnId termId =
     \<lparr>cde_space_id = de_space_id req, cde_parts = de_parts req,
      cde_txn_id = txnId, cde_term = termId\<rparr>"

text \<open>
  The three operations. Each returns \<^verbatim>\<open>void\<close>; the model returns the trace extended
  by what the operation did, \<open>Inl\<close> when it failed as described above, and \<open>None\<close>
  when it never comes to an end: the retry on \<open>E_LEADER_CHANGED\<close> has no bound. The
  continuation passed to \<^verbatim>\<open>thenTry\<close> runs when the response is there; the retry inside
  it calls the operation again with four arguments, so with the default \<^verbatim>\<open>evb\<close>.
\<close>

partial_function (option) chainUpdateEdge ::
  "InternalStorageClient \<Rightarrow> UpdateEdgeRequest \<Rightarrow> TermID \<Rightarrow> 64 word option \<Rightarrow>
   EventBasePtr \<Rightarrow> event list \<Rightarrow> (failure + event list) option" where
  "chainUpdateEdge c reversedRequest termOfSrc optVersion evb tr =
     (case getLeader c (numLookups tr) (ue_space_id reversedRequest) (ue_part_id reversedRequest) of
        StatusOrStatus st \<Rightarrow>
          Some (setValue E_SPACE_NOT_FOUND
            (tr @ [EvGetLeader (ue_space_id reversedRequest) (ue_part_id reversedRequest)]))
      | StatusOrValue optLeader \<Rightarrow>
          (if getErrorCode (getResponse c (numSends tr) evb (internalAddr c optLeader)
                 (ChainUpdateEdge (makeChainUpdateReq reversedRequest termOfSrc optVersion)))
              = E_LEADER_CHANGED
           then chainUpdateEdge c reversedRequest termOfSrc optVersion (defaultEvb c)
                  (tr @ [EvGetLeader (ue_space_id reversedRequest) (ue_part_id reversedRequest),
                         EvSend evb (internalAddr c optLeader)
                           (ChainUpdateEdge (makeChainUpdateReq reversedRequest termOfSrc optVersion)),
                         EvSleepMs 500])
           else Some (setValue
                  (getErrorCode (getResponse c (numSends tr) evb (internalAddr c optLeader)
                     (ChainUpdateEdge (makeChainUpdateReq reversedRequest termOfSrc optVersion))))
                  (tr @ [EvGetLeader (ue_space_id reversedRequest) (ue_part_id reversedRequest),
                         EvSend evb (internalAddr c optLeader)
                           (ChainUpdateEdge (makeChainUpdateReq reversedRequest termOfSrc optVersion))]))))"

partial_function (option) chainAddEdges ::
  "InternalStorageClient \<Rightarrow> AddEdgesRequest \<Rightarrow> TermID \<Rightarrow> 64 word option \<Rightarrow>
   EventBasePtr \<Rightarrow> event list \<Rightarrow> (failure + event list) option" where
  "chainAddEdges c directReq termId optVersion evb tr =
     (case ae_parts directReq of
        [] \<Rightarrow> Some (Inl UndefinedBehaviour)
      | (partId, edges) # others \<Rightarrow>
     (case getLeader c (numLookups tr) (ae_space_id directReq) partId of
        StatusOrStatus st \<Rightarrow>
          Some (setValue E_SPACE_NOT_FOUND (tr @ [EvGetLeader (ae_space_id directReq) partId]))
      | StatusOrValue optLeader \<Rightarrow>
          (if getErrorCode (getResponse c (numSends tr) evb (internalAddr c optLeader)
                 (ChainAddEdges (makeChainAddReq directReq termId optVersion)))
              = E_LEADER_CHANGED
           then chainAddEdges c directReq termId optVersion (defaultEvb c)
                  (tr @ [EvGetLeader (ae_space_id directReq) partId,
                         EvSend evb (internalAddr c optLeader)
                           (ChainAddEdges (makeChainAddReq directReq termId optVersion)),
                         EvSleepMs 500])
           else Some (setValue
                  (getErrorCode (getResponse c (numSends tr) evb (internalAddr c optLeader)
                     (ChainAddEdges (makeChainAddReq directReq termId optVersion))))
                  (tr @ [EvGetLeader (ae_space_id directReq) partId,
                         EvSend evb (internalAddr c optLeader)
                           (ChainAddEdges (makeChainAddReq directReq termId optVersion))])))))"

partial_function (option) chainDeleteEdges ::
  "InternalStorageClient \<Rightarrow> DeleteEdgesRequest \<Rightarrow> string \<Rightarrow> TermID \<Rightarrow>
   EventBasePtr \<Rightarrow> event list \<Rightarrow> (failure + event list) option" where
  "chainDeleteEdges c req txnId termId evb tr =
     (case de_parts req of
        [] \<Rightarrow> Some (Inl UndefinedBehaviour)
      | (partId, keys) # others \<Rightarrow>
     (case getLeader c (numLookups tr) (de_space_id req) partId of
        StatusOrStatus st \<Rightarrow>
          Some (setValue E_SPACE_NOT_FOUND (tr @ [EvGetLeader (de_space_id req) partId]))
      | StatusOrValue optLeader \<Rightarrow>
          (if getErrorCode (getResponse c (numSends tr) evb (internalAddr c optLeader)
                 (ChainDeleteEdges (makeChainDeleteReq req txnId termId)))
              = E_LEADER_CHANGED
           then chainDeleteEdges c req txnId termId (defaultEvb c)
                  (tr @ [EvGetLeader (de_space_id req) partId,
                         EvSend evb (internalAddr c optLeader)
                           (ChainDeleteEdges (makeChainDeleteReq req txnId termId)),
                         EvSleepMs 500])
           else Some (setValue
                  (getErrorCode (getResponse c (numSends tr) evb (internalAddr c optLeader)
                     (ChainDeleteEdges (makeChainDeleteReq req txnId termId))))
                  (tr @ [EvGetLeader (de_space_id req) partId,
                         EvSend evb (internalAddr c optLeader)
                           (ChainDeleteEdges (makeChainDeleteReq req txnId termId))])))))"

section \<open>SnapshotManager.cpp: sending a snapshot\<close>

text \<open>
  Modelled from the spec: the enum \<^verbatim>\<open>SnapshotStatus\<close> is declared in a header that is
  not among the source files. The source names its values \<^verbatim>\<open>FAILED\<close> and \<^verbatim>\<open>DONE\<close>; the
  specification gives the status of the callback as one of MORE, DONE and FAILED, where
  MORE is a batch with more to follow.
\<close>

datatype SnapshotStatus = MORE | DONE | FAILED

text \<open>
  What \<^verbatim>\<open>sendSnapshot\<close> reads from the \<^verbatim>\<open>RaftPart\<close> it is given (the members
  \<^verbatim>\<open>spaceId_\<close>, \<^verbatim>\<open>partId_\<close>, \<^verbatim>\<open>term_\<close>, and the results of \<^verbatim>\<open>lastCommittedLogId()\<close>
  and \<^verbatim>\<open>address()\<close>). The part is shared with the rest of the server and changes while
  a transfer runs.
\<close>

record RaftPart =
  rp_spaceId :: GraphSpaceID
  rp_partId :: PartitionID
  rp_term :: TermID
  lastCommittedLogId :: "LogID \<times> TermID"
  address :: HostAddr

record SendSnapshotRequest =
  req_space :: GraphSpaceID
  req_part :: PartitionID
  req_term :: TermID
  req_committed_log_id :: LogID
  req_committed_log_term :: TermID
  req_leader_addr :: string
  req_leader_port :: Port
  req_rows :: "string list"
  req_total_size :: "64 word"
  req_total_count :: "64 word"
  req_done :: bool

record SendSnapshotResponse =
  error_code :: ErrorCode

text \<open>The arguments of one invocation of the snapshot callback.\<close>

record SnapshotRows =
  data :: "string list"
  totalCount :: "64 word"
  totalSize :: "64 word"
  status :: SnapshotStatus

text \<open>
  The trace of a transfer: a request handed to the client of the destination, what
  \<^verbatim>\<open>std::move(f).get()\<close> then gives (the response, or the exception it throws, by its
  message), a \<^verbatim>\<open>sleep\<close> in seconds, and a \<^verbatim>\<open>setValue\<close> on the promise of the
  transfer.
\<close>

datatype sevent =
    SnSend HostAddr SendSnapshotRequest
  | SnRecv "string + SendSnapshotResponse"
  | SnSleep nat
  | SnSetValue "(LogID \<times> TermID) StatusOr"

fun snNumSends :: "sevent list \<Rightarrow> nat" where
  "snNumSends [] = 0"
| "snNumSends (SnSend d q # tr) = Suc (snNumSends tr)"
| "snNumSends (e # tr) = snNumSends tr"

fun snResolutions :: "sevent list \<Rightarrow> (LogID \<times> TermID) StatusOr list" where
  "snResolutions [] = []"
| "snResolutions (SnSetValue v # tr) = v # snResolutions tr"
| "snResolutions (e # tr) = snResolutions tr"

fun snSends :: "sevent list \<Rightarrow> (HostAddr \<times> SendSnapshotRequest) list" where
  "snSends [] = []"
| "snSends (SnSend d q # tr) = (d, q) # snSends tr"
| "snSends (e # tr) = snSends tr"

definition snSetValue ::
  "(LogID \<times> TermID) StatusOr \<Rightarrow> sevent list \<Rightarrow> failure + sevent list" where
  "snSetValue v tr =
     (if snResolutions tr = [] then Inr (tr @ [SnSetValue v]) else Inl PromiseAlreadySatisfied)"

text \<open>
  \<^verbatim>\<open>Status::Error("Send snapshot failed!")\<close>, a status that is not ok, with the code
  of a general error.
\<close>

definition sendSnapshotFailed :: "(LogID \<times> TermID) StatusOr" where
  "sendSnapshotFailed =
     StatusOrStatus \<lparr>status_code = kError, status_msg = ''Send snapshot failed!''\<rparr>"

text \<open>
  The manager: the remote end as reached through \<^verbatim>\<open>connManager_\<close> (the answer to the
  k-th request sent, \<open>Inl\<close> for an exception out of \<^verbatim>\<open>get()\<close>), and the value of the
  flag \<^verbatim>\<open>snapshot_send_retry_times\<close>, an \<^verbatim>\<open>int32\<close> whose default the source defines.
  The loop counter only counts down from the flag, by one for each test, and the loop
  ends at the first test that finds it at zero or below, so it is an \<open>int\<close> here.
\<close>

record SnapshotManager =
  future_sendSnapshot :: "nat \<Rightarrow> HostAddr \<Rightarrow> SendSnapshotRequest \<Rightarrow> string + SendSnapshotResponse"
  FLAGS_snapshot_send_retry_times :: int

definition DEFAULT_snapshot_send_retry_times :: int where
  "DEFAULT_snapshot_send_retry_times = 3"

text \<open>
  \<^verbatim>\<open>SnapshotManager::send\<close> builds the request for one chunk; the model returns the
  destination with the request, and the answer comes from the manager when the caller
  waits for it.
\<close>

definition send ::
  "GraphSpaceID \<Rightarrow> PartitionID \<Rightarrow> TermID \<Rightarrow> LogID \<Rightarrow> TermID \<Rightarrow> HostAddr \<Rightarrow> string list \<Rightarrow>
   64 word \<Rightarrow> 64 word \<Rightarrow> HostAddr \<Rightarrow> bool \<Rightarrow> HostAddr \<times> SendSnapshotRequest" where
  "send spaceId partId termId committedLogId committedLogTerm localhost rows totalSz totalCnt
        addr finished =
     (addr,
      \<lparr>req_space = spaceId, req_part = partId, req_term = termId,
       req_committed_log_id = committedLogId, req_committed_log_term = committedLogTerm,
       req_leader_addr = host localhost, req_leader_port = port localhost,
       req_rows = rows, req_total_size = totalSz, req_total_count = totalCnt,
       req_done = finished\<rparr>)"

text \<open>What the callback captures from \<^verbatim>\<open>sendSnapshot\<close> before the iteration starts.\<close>

record Captured =
  cap_spaceId :: GraphSpaceID
  cap_partId :: PartitionID
  cap_termId :: TermID
  cap_commitLogIdAndTerm :: "LogID \<times> TermID"
  cap_localhost :: HostAddr
  cap_dst :: HostAddr

definition sendOf :: "Captured \<Rightarrow> SnapshotRows \<Rightarrow> HostAddr \<times> SendSnapshotRequest" where
  "sendOf cap r =
     send (cap_spaceId cap) (cap_partId cap) (cap_termId cap)
          (fst (cap_commitLogIdAndTerm cap)) (snd (cap_commitLogIdAndTerm cap))
          (cap_localhost cap) (data r) (totalSize r) (totalCount r) (cap_dst cap)
          (status r = DONE)"

text \<open>
  The loop \<^verbatim>\<open>while (retry-- > 0)\<close> of the callback, with \<open>retry\<close> the value before the
  test. The result is what the callback returns and the trace. A \<^verbatim>\<open>setValue\<close> inside
  the \<^verbatim>\<open>try\<close> block that throws is caught by the handler like a failed request; the
  one after the loop is not.
\<close>

function sendLoop ::
  "SnapshotManager \<Rightarrow> Captured \<Rightarrow> SnapshotRows \<Rightarrow> int \<Rightarrow> sevent list \<Rightarrow>
   failure + bool \<times> sevent list" where
  "sendLoop m cap r retry tr =
     (if retry > 0 then
        (case future_sendSnapshot m (snNumSends tr) (fst (sendOf cap r)) (snd (sendOf cap r)) of
           Inl e \<Rightarrow>
             sendLoop m cap r (retry - 1)
               (tr @ [SnSend (fst (sendOf cap r)) (snd (sendOf cap r)), SnRecv (Inl e), SnSleep 1])
         | Inr resp \<Rightarrow>
             (if error_code resp = SUCCEEDED then
                (if status r = DONE then
                   (case snSetValue (StatusOrValue (cap_commitLogIdAndTerm cap))
                           (tr @ [SnSend (fst (sendOf cap r)) (snd (sendOf cap r)),
                                  SnRecv (Inr resp)]) of
                      Inr tr' \<Rightarrow> Inr (True, tr')
                    | Inl f \<Rightarrow>
                        sendLoop m cap r (retry - 1)
                          (tr @ [SnSend (fst (sendOf cap r)) (snd (sendOf cap r)),
                                 SnRecv (Inr resp), SnSleep 1]))
                 else Inr (True, tr @ [SnSend (fst (sendOf cap r)) (snd (sendOf cap r)),
                                       SnRecv (Inr resp)]))
              else
                (case snSetValue sendSnapshotFailed
                        (tr @ [SnSend (fst (sendOf cap r)) (snd (sendOf cap r)),
                               SnRecv (Inr resp)]) of
                   Inr tr' \<Rightarrow> Inr (False, tr')
                 | Inl f \<Rightarrow>
                     sendLoop m cap r (retry - 1)
                       (tr @ [SnSend (fst (sendOf cap r)) (snd (sendOf cap r)),
                              SnRecv (Inr resp), SnSleep 1]))))
      else
        (case snSetValue sendSnapshotFailed tr of
           Inr tr' \<Rightarrow> Inr (False, tr')
         | Inl f \<Rightarrow> Inl f))"
  by pat_completeness auto
termination
  by (relation "measure (\<lambda>(m, cap, r, retry, tr). nat retry)") auto

declare sendLoop.simps [simp del]

text \<open>The callback that \<^verbatim>\<open>sendSnapshot\<close> passes to the row iteration.\<close>

definition snapshotCallback ::
  "SnapshotManager \<Rightarrow> Captured \<Rightarrow> SnapshotRows \<Rightarrow> sevent list \<Rightarrow>
   failure + bool \<times> sevent list" where
  "snapshotCallback m cap r tr =
     (if status r = FAILED then
        (case snSetValue sendSnapshotFailed tr of
           Inr tr' \<Rightarrow> Inr (False, tr')
         | Inl f \<Rightarrow> Inl f)
      else sendLoop m cap r (FLAGS_snapshot_send_retry_times m) tr)"

text \<open>
  Modelled from the spec: \<^verbatim>\<open>accessAllRowsInSnapshot\<close>, the row iteration of the
  storage engine, is not among the source files. The specification describes it as a
  push-style iteration that invokes the callback repeatedly, once for each batch of
  rows in order, and a failure reported by the callback as the end of the whole
  transfer. The batches that the iteration over the partition would produce are the
  list \<open>batches\<close>; the iteration stops at the first invocation for which the callback
  returns false, and an exception out of the callback ends it.
\<close>

fun accessAllRowsInSnapshot ::
  "(SnapshotRows \<Rightarrow> sevent list \<Rightarrow> failure + bool \<times> sevent list) \<Rightarrow>
   SnapshotRows list \<Rightarrow> sevent list \<Rightarrow> failure + sevent list" where
  "accessAllRowsInSnapshot cb [] tr = Inr tr"
| "accessAllRowsInSnapshot cb (r # batches) tr =
     (case cb r tr of
        Inl f \<Rightarrow> Inl f
      | Inr (True, tr') \<Rightarrow> accessAllRowsInSnapshot cb batches tr'
      | Inr (False, tr') \<Rightarrow> Inr tr')"

text \<open>
  \<^verbatim>\<open>sendSnapshot\<close>, from the moment the worker runs the task: it reads the part once
  (the part as it is after the events so far), then starts the iteration.
\<close>

definition capture :: "RaftPart \<Rightarrow> HostAddr \<Rightarrow> Captured" where
  "capture p dst =
     \<lparr>cap_spaceId = rp_spaceId p, cap_partId = rp_partId p, cap_termId = rp_term p,
      cap_commitLogIdAndTerm = lastCommittedLogId p, cap_localhost = address p,
      cap_dst = dst\<rparr>"

definition sendSnapshot ::
  "SnapshotManager \<Rightarrow> (nat \<Rightarrow> RaftPart) \<Rightarrow> HostAddr \<Rightarrow> SnapshotRows list \<Rightarrow> sevent list \<Rightarrow>
   failure + sevent list" where
  "sendSnapshot m part dst batches tr =
     accessAllRowsInSnapshot (snapshotCallback m (capture (part (length tr)) dst)) batches tr"

section \<open>Descriptions of traces\<close>

text \<open>
  The events of \<open>n\<close> attempts of a chain operation that each end in a retry: the
  lookup, the request to the leader found (the k-th lookup finds \<open>L k\<close>), the sleep.
  The first attempt runs with the caller's event base.
\<close>

definition evbAfter :: "InternalStorageClient \<Rightarrow> EventBasePtr \<Rightarrow> nat \<Rightarrow> EventBasePtr" where
  "evbAfter c evb n = (if n = 0 then evb else defaultEvb c)"

fun retryEvents ::
  "InternalStorageClient \<Rightarrow> GraphSpaceID \<Rightarrow> PartitionID \<Rightarrow> ChainRequest \<Rightarrow>
   EventBasePtr \<Rightarrow> (nat \<Rightarrow> HostAddr) \<Rightarrow> nat \<Rightarrow> event list" where
  "retryEvents c s p r evb L 0 = []"
| "retryEvents c s p r evb L (Suc n) =
     [EvGetLeader s p, EvSend evb (internalAddr c (L 0)) r, EvSleepMs 500]
     @ retryEvents c s p r (defaultEvb c) (\<lambda>k. L (Suc k)) n"

text \<open>
  The events of \<open>n\<close> attempts to send one chunk that each end in an exception (the
  k-th with message \<open>e k\<close>).
\<close>

fun failedAttempts ::
  "HostAddr \<times> SendSnapshotRequest \<Rightarrow> (nat \<Rightarrow> string) \<Rightarrow> nat \<Rightarrow> sevent list" where
  "failedAttempts c e 0 = []"
| "failedAttempts c e (Suc n) =
     [SnSend (fst c) (snd c), SnRecv (Inl (e 0)), SnSleep 1]
     @ failedAttempts c (\<lambda>k. e (Suc k)) n"

text \<open>
  The order the specification asks of a transfer, as a check of a trace against the
  requests \<open>cs\<close> of the chunks still to be sent, in iteration order: every request
  sent is the one of the first chunk left and is followed at once by its answer; after
  an exception the same chunk is still the first one left; the next chunk comes only
  after an answer with \<open>SUCCEEDED\<close>; after an answer with another code nothing is sent.
\<close>

fun serialInOrder :: "(HostAddr \<times> SendSnapshotRequest) list \<Rightarrow> sevent list \<Rightarrow> bool" where
  "serialInOrder cs [] = True"
| "serialInOrder cs (SnSleep n # tr) = serialInOrder cs tr"
| "serialInOrder cs (SnSetValue v # tr) = serialInOrder cs tr"
| "serialInOrder (c # cs) (SnSend d q # SnRecv (Inl e) # tr) =
     ((d, q) = c \<and> serialInOrder (c # cs) tr)"
| "serialInOrder (c # cs) (SnSend d q # SnRecv (Inr resp) # tr) =
     ((d, q) = c \<and>
      (if error_code resp = SUCCEEDED then serialInOrder cs tr else snSends tr = []))"
| "serialInOrder cs tr = False"

section \<open>Example inputs\<close>

text \<open>
  A client whose lookups always find a leader (the k-th lookup finds \<open>exLeader k\<close>) and
  whose peer answers the first \<open>n\<close> requests with the status "leader changed" and every
  later one with \<open>final\<close>; a client whose lookups fail; one request of each kind, the
  batches with two partitions.
\<close>

definition exLeader :: "nat \<Rightarrow> HostAddr" where
  "exLeader k = \<lparr>host = ''storaged'', port = of_nat k\<rparr>"

definition exClient :: "nat \<Rightarrow> ExecResponse StatusOr Try \<Rightarrow> InternalStorageClient" where
  "exClient n final =
     \<lparr>getLeader = (\<lambda>k s p. StatusOrValue (exLeader k)),
      getResponse = (\<lambda>k b h r.
        if k < n
        then TryValue (StatusOrStatus \<lparr>status_code = kLeaderChanged, status_msg = ''leader changed''\<rparr>)
        else final),
      kInternalPortOffset = - 2,
      defaultEvb = 0\<rparr>"

definition exClientNoLeader :: InternalStorageClient where
  "exClientNoLeader =
     \<lparr>getLeader = (\<lambda>k s p.
        StatusOrStatus \<lparr>status_code = kOtherCode ''kPartNotFound'', status_msg = ''part not found''\<rparr>),
      getResponse = (\<lambda>k b h r. TryException ''unreachable''),
      kInternalPortOffset = - 2,
      defaultEvb = 0\<rparr>"

definition exOk :: "ExecResponse StatusOr Try" where
  "exOk = TryValue (StatusOrValue \<lparr>result = \<lparr>failed_parts = []\<rparr>\<rparr>)"

definition exUpdate :: UpdateEdgeRequest where
  "exUpdate = \<lparr>ue_space_id = 1, ue_part_id = 2, ue_payload = ''edge''\<rparr>"

definition exAdd :: AddEdgesRequest where
  "exAdd = \<lparr>ae_space_id = 1, ae_parts = [(2, [''e1'']), (3, [''e2''])],
            ae_prop_names = [''p''], ae_if_not_exists = False\<rparr>"

definition exDelete :: DeleteEdgesRequest where
  "exDelete = \<lparr>de_space_id = 1, de_parts = [(2, [''k1'']), (3, [''k2''])]\<rparr>"

text \<open>
  A manager whose remote end answers the k-th request with \<open>answers k\<close>; a part whose
  committed log id grows with every event; a destination; a batch of one row with a
  given status; the answer with a given code.
\<close>

definition exManager :: "(nat \<Rightarrow> string + SendSnapshotResponse) \<Rightarrow> int \<Rightarrow> SnapshotManager" where
  "exManager answers budget =
     \<lparr>future_sendSnapshot = (\<lambda>k d q. answers k), FLAGS_snapshot_send_retry_times = budget\<rparr>"

definition exPart :: "nat \<Rightarrow> RaftPart" where
  "exPart time =
     \<lparr>rp_spaceId = 1, rp_partId = 2, rp_term = 7,
      lastCommittedLogId = (of_nat time + 100, 7),
      address = \<lparr>host = ''leader'', port = 9780\<rparr>\<rparr>"

definition exDst :: HostAddr where
  "exDst = \<lparr>host = ''follower'', port = 9780\<rparr>"

definition exRows :: "SnapshotStatus \<Rightarrow> SnapshotRows" where
  "exRows st = \<lparr>data = [''row''], totalCount = 1, totalSize = 3, status = st\<rparr>"

definition exAnswer :: "ErrorCode \<Rightarrow> string + SendSnapshotResponse" where
  "exAnswer e = Inr \<lparr>error_code = e\<rparr>"

section \<open>Properties of the error-code extraction\<close>

text \<open>
  C1. For every raw RPC result, getErrorCode returns E_RPC_FAILURE when the transport
  produced no value; otherwise, when the embedded status is not ok, E_LEADER_CHANGED for
  the status code "leader changed" and E_UNKNOWN for every other status code; otherwise
  the code of the first entry of the failed-parts list when that list is non-empty, and
  SUCCEEDED when it is empty.
\<close>

theorem getErrorCode_cases:
  "getErrorCode t =
     (case t of
        TryException e \<Rightarrow> E_RPC_FAILURE
      | TryValue stResp \<Rightarrow>
          (case stResp of
             StatusOrStatus st \<Rightarrow>
               if status_code st = kLeaderChanged then E_LEADER_CHANGED else E_UNKNOWN
           | StatusOrValue resp \<Rightarrow>
               if failed_parts (result resp) = [] then SUCCEEDED
               else code (hd (failed_parts (result resp)))))
   \<and> hasValue t = (\<exists>stResp. t = TryValue stResp)
   \<and> (\<forall>stResp. ok stResp = (\<exists>resp. stResp = StatusOrValue resp))"
proof (intro conjI allI)
  show "getErrorCode t =
     (case t of
        TryException e \<Rightarrow> E_RPC_FAILURE
      | TryValue stResp \<Rightarrow>
          (case stResp of
             StatusOrStatus st \<Rightarrow>
               if status_code st = kLeaderChanged then E_LEADER_CHANGED else E_UNKNOWN
           | StatusOrValue resp \<Rightarrow>
               if failed_parts (result resp) = [] then SUCCEEDED
               else code (hd (failed_parts (result resp)))))"
  proof (cases t)
    case (TryException e)
    then show ?thesis by simp
  next
    case (TryValue stResp)
    show ?thesis
    proof (cases stResp)
      case (StatusOrStatus st)
      with TryValue show ?thesis by (cases "status_code st") simp_all
    next
      case (StatusOrValue resp)
      with TryValue show ?thesis by (cases "failed_parts (result resp)") simp_all
    qed
  qed
next
  show "hasValue t = (\<exists>stResp. t = TryValue stResp)" by (cases t) simp_all
next
  fix stResp :: "'a StatusOr"
  show "ok stResp = (\<exists>resp. stResp = StatusOrValue resp)" by (cases stResp) simp_all
qed

section \<open>Counting events\<close>

lemma numLookups_append: "numLookups (a @ b) = numLookups a + numLookups b"
  by (induction a rule: numLookups.induct) simp_all

lemma numSends_append: "numSends (a @ b) = numSends a + numSends b"
  by (induction a rule: numSends.induct) simp_all

lemma resolutions_append: "resolutions (a @ b) = resolutions a @ resolutions b"
  by (induction a rule: resolutions.induct) simp_all

lemma sleeps_append: "sleeps (a @ b) = sleeps a @ sleeps b"
  by (induction a rule: sleeps.induct) simp_all

lemma sends_append: "sends (a @ b) = sends a @ sends b"
  by (induction a rule: sends.induct) simp_all

lemma lookups_append: "lookups (a @ b) = lookups a @ lookups b"
  by (induction a rule: lookups.induct) simp_all

lemma numLookups_retryEvents: "numLookups (retryEvents c s p r evb L n) = n"
  by (induction n arbitrary: evb L) simp_all

lemma numSends_retryEvents: "numSends (retryEvents c s p r evb L n) = n"
  by (induction n arbitrary: evb L) simp_all

lemma resolutions_retryEvents: "resolutions (retryEvents c s p r evb L n) = []"
  by (induction n arbitrary: evb L) simp_all

lemma sleeps_retryEvents: "sleeps (retryEvents c s p r evb L n) = replicate n 500"
  by (induction n arbitrary: evb L) simp_all

lemma lookups_retryEvents: "lookups (retryEvents c s p r evb L n) = replicate n (s, p)"
  by (induction n arbitrary: evb L) simp_all

lemma sends_retryEvents:
  "sends (retryEvents c s p r evb L n) =
     map (\<lambda>k. (evbAfter c evb k, internalAddr c (L k), r)) [0..<n]"
proof (induction n arbitrary: evb L)
  case 0
  show ?case by simp
next
  case (Suc n)
  have "map (\<lambda>k. (evbAfter c evb k, internalAddr c (L k), r)) [0..<Suc n]
        = (evb, internalAddr c (L 0), r)
          # map (\<lambda>k. (evbAfter c (defaultEvb c) k, internalAddr c (L (Suc k)), r)) [0..<n]"
    by (simp add: upt_conv_Cons map_Suc_upt [symmetric] evbAfter_def del: upt_Suc)
  with Suc show ?case by simp
qed

section \<open>The retry loop of the chain operations\<close>

text \<open>
  The three operations have the same shape. The lemmas of this section are about any
  \<open>f\<close> that unfolds like them: \<open>step\<close> is the retry, \<open>fin\<close> the answer with another
  code, \<open>nol\<close> the failed lookup.
\<close>

lemma retry_generic:
  assumes step: "\<And>evb tr l.
      getLeader c (numLookups tr) s p = StatusOrValue l \<Longrightarrow>
      getErrorCode (getResponse c (numSends tr) evb (internalAddr c l) r) = E_LEADER_CHANGED \<Longrightarrow>
      f evb tr = f (defaultEvb c) (tr @ [EvGetLeader s p, EvSend evb (internalAddr c l) r, EvSleepMs 500])"
    and look: "\<forall>k<n. getLeader c (numLookups tr + k) s p = StatusOrValue (L k)"
    and resp: "\<forall>k<n. getErrorCode (getResponse c (numSends tr + k) (evbAfter c evb k)
                        (internalAddr c (L k)) r) = E_LEADER_CHANGED"
  shows "f evb tr = f (evbAfter c evb n) (tr @ retryEvents c s p r evb L n)"
  using look resp
proof (induction n arbitrary: evb tr L)
  case 0
  show ?case by (simp add: evbAfter_def)
next
  case (Suc n)
  let ?tr = "tr @ [EvGetLeader s p, EvSend evb (internalAddr c (L 0)) r, EvSleepMs 500]"
  have l0: "getLeader c (numLookups tr) s p = StatusOrValue (L 0)"
    using Suc.prems(1) [rule_format, of 0] by simp
  have r0: "getErrorCode (getResponse c (numSends tr) evb (internalAddr c (L 0)) r) = E_LEADER_CHANGED"
    using Suc.prems(2) [rule_format, of 0] by (simp add: evbAfter_def)
  have first: "f evb tr = f (defaultEvb c) ?tr"
    by (rule step [OF l0 r0])
  have look': "\<forall>k<n. getLeader c (numLookups ?tr + k) s p = StatusOrValue (L (Suc k))"
  proof (intro allI impI)
    fix k assume "k < n"
    then have "getLeader c (numLookups tr + Suc k) s p = StatusOrValue (L (Suc k))"
      using Suc.prems(1) [rule_format, of "Suc k"] by simp
    then show "getLeader c (numLookups ?tr + k) s p = StatusOrValue (L (Suc k))"
      by (simp add: numLookups_append)
  qed
  have resp': "\<forall>k<n. getErrorCode (getResponse c (numSends ?tr + k) (evbAfter c (defaultEvb c) k)
                        (internalAddr c (L (Suc k))) r) = E_LEADER_CHANGED"
  proof (intro allI impI)
    fix k assume "k < n"
    then have "getErrorCode (getResponse c (numSends tr + Suc k) (evbAfter c evb (Suc k))
                        (internalAddr c (L (Suc k))) r) = E_LEADER_CHANGED"
      using Suc.prems(2) [rule_format, of "Suc k"] by simp
    then show "getErrorCode (getResponse c (numSends ?tr + k) (evbAfter c (defaultEvb c) k)
                        (internalAddr c (L (Suc k))) r) = E_LEADER_CHANGED"
      by (simp add: numSends_append evbAfter_def)
  qed
  have "f (defaultEvb c) ?tr
        = f (evbAfter c (defaultEvb c) n) (?tr @ retryEvents c s p r (defaultEvb c) (\<lambda>k. L (Suc k)) n)"
    by (rule Suc.IH [OF look' resp'])
  with first show ?case by (simp add: evbAfter_def)
qed

lemma run_code_generic:
  assumes step: "\<And>evb tr l.
      getLeader c (numLookups tr) s p = StatusOrValue l \<Longrightarrow>
      getErrorCode (getResponse c (numSends tr) evb (internalAddr c l) r) = E_LEADER_CHANGED \<Longrightarrow>
      f evb tr = f (defaultEvb c) (tr @ [EvGetLeader s p, EvSend evb (internalAddr c l) r, EvSleepMs 500])"
    and fin: "\<And>evb tr l.
      getLeader c (numLookups tr) s p = StatusOrValue l \<Longrightarrow>
      getErrorCode (getResponse c (numSends tr) evb (internalAddr c l) r) \<noteq> E_LEADER_CHANGED \<Longrightarrow>
      resolutions tr = [] \<Longrightarrow>
      f evb tr = Some (Inr (tr @ [EvGetLeader s p, EvSend evb (internalAddr c l) r,
         EvSetValue (getErrorCode (getResponse c (numSends tr) evb (internalAddr c l) r))]))"
    and fresh: "resolutions tr = []"
    and look: "\<forall>k\<le>n. getLeader c (numLookups tr + k) s p = StatusOrValue (L k)"
    and resp: "\<forall>k<n. getErrorCode (getResponse c (numSends tr + k) (evbAfter c evb k)
                        (internalAddr c (L k)) r) = E_LEADER_CHANGED"
    and last: "getErrorCode (getResponse c (numSends tr + n) (evbAfter c evb n)
                        (internalAddr c (L n)) r) = e"
    and e: "e \<noteq> E_LEADER_CHANGED"
  shows "f evb tr = Some (Inr (tr @ retryEvents c s p r evb L n
           @ [EvGetLeader s p, EvSend (evbAfter c evb n) (internalAddr c (L n)) r, EvSetValue e]))"
proof -
  let ?tr = "tr @ retryEvents c s p r evb L n"
  have look': "\<forall>k<n. getLeader c (numLookups tr + k) s p = StatusOrValue (L k)"
    using look by simp
  have "f evb tr = f (evbAfter c evb n) ?tr"
    by (rule retry_generic [of c s p r f, OF step look' resp])
  moreover have "getLeader c (numLookups ?tr) s p = StatusOrValue (L n)"
    using look by (simp add: numLookups_append numLookups_retryEvents)
  moreover have "getErrorCode (getResponse c (numSends ?tr) (evbAfter c evb n) (internalAddr c (L n)) r) = e"
    using last by (simp add: numSends_append numSends_retryEvents)
  moreover have "resolutions ?tr = []"
    using fresh by (simp add: resolutions_append resolutions_retryEvents)
  ultimately show ?thesis
    using fin [of ?tr "L n" "evbAfter c evb n"] e by simp
qed

lemma run_noLeader_generic:
  assumes step: "\<And>evb tr l.
      getLeader c (numLookups tr) s p = StatusOrValue l \<Longrightarrow>
      getErrorCode (getResponse c (numSends tr) evb (internalAddr c l) r) = E_LEADER_CHANGED \<Longrightarrow>
      f evb tr = f (defaultEvb c) (tr @ [EvGetLeader s p, EvSend evb (internalAddr c l) r, EvSleepMs 500])"
    and nol: "\<And>evb tr.
      \<not> ok (getLeader c (numLookups tr) s p) \<Longrightarrow> resolutions tr = [] \<Longrightarrow>
      f evb tr = Some (Inr (tr @ [EvGetLeader s p, EvSetValue E_SPACE_NOT_FOUND]))"
    and fresh: "resolutions tr = []"
    and look: "\<forall>k<n. getLeader c (numLookups tr + k) s p = StatusOrValue (L k)"
    and resp: "\<forall>k<n. getErrorCode (getResponse c (numSends tr + k) (evbAfter c evb k)
                        (internalAddr c (L k)) r) = E_LEADER_CHANGED"
    and last: "\<not> ok (getLeader c (numLookups tr + n) s p)"
  shows "f evb tr = Some (Inr (tr @ retryEvents c s p r evb L n
           @ [EvGetLeader s p, EvSetValue E_SPACE_NOT_FOUND]))"
proof -
  let ?tr = "tr @ retryEvents c s p r evb L n"
  have "f evb tr = f (evbAfter c evb n) ?tr"
    by (rule retry_generic [of c s p r f, OF step look resp])
  moreover have "\<not> ok (getLeader c (numLookups ?tr) s p)"
    using last by (simp add: numLookups_append numLookups_retryEvents)
  moreover have "resolutions ?tr = []"
    using fresh by (simp add: resolutions_append resolutions_retryEvents)
  ultimately show ?thesis
    using nol [of ?tr "evbAfter c evb n"] by simp
qed

subsection \<open>One attempt of each operation\<close>

lemma chainUpdateEdge_step:
  assumes "getLeader c (numLookups tr) (ue_space_id q) (ue_part_id q) = StatusOrValue l"
    and "getErrorCode (getResponse c (numSends tr) evb (internalAddr c l)
           (ChainUpdateEdge (makeChainUpdateReq q t v))) = E_LEADER_CHANGED"
  shows "chainUpdateEdge c q t v evb tr =
         chainUpdateEdge c q t v (defaultEvb c)
           (tr @ [EvGetLeader (ue_space_id q) (ue_part_id q),
                  EvSend evb (internalAddr c l) (ChainUpdateEdge (makeChainUpdateReq q t v)),
                  EvSleepMs 500])"
  using assms by (subst chainUpdateEdge.simps) simp

lemma chainUpdateEdge_fin:
  assumes "getLeader c (numLookups tr) (ue_space_id q) (ue_part_id q) = StatusOrValue l"
    and "getErrorCode (getResponse c (numSends tr) evb (internalAddr c l)
           (ChainUpdateEdge (makeChainUpdateReq q t v))) \<noteq> E_LEADER_CHANGED"
    and "resolutions tr = []"
  shows "chainUpdateEdge c q t v evb tr =
         Some (Inr (tr @ [EvGetLeader (ue_space_id q) (ue_part_id q),
                  EvSend evb (internalAddr c l) (ChainUpdateEdge (makeChainUpdateReq q t v)),
                  EvSetValue (getErrorCode (getResponse c (numSends tr) evb (internalAddr c l)
                     (ChainUpdateEdge (makeChainUpdateReq q t v))))]))"
  using assms by (subst chainUpdateEdge.simps) (simp add: setValue_def resolutions_append)

lemma chainUpdateEdge_nol:
  assumes "\<not> ok (getLeader c (numLookups tr) (ue_space_id q) (ue_part_id q))"
    and "resolutions tr = []"
  shows "chainUpdateEdge c q t v evb tr =
         Some (Inr (tr @ [EvGetLeader (ue_space_id q) (ue_part_id q), EvSetValue E_SPACE_NOT_FOUND]))"
proof (cases "getLeader c (numLookups tr) (ue_space_id q) (ue_part_id q)")
  case (StatusOrValue l)
  with assms(1) show ?thesis by simp
next
  case (StatusOrStatus st)
  with assms(2) show ?thesis
    by (subst chainUpdateEdge.simps) (simp add: setValue_def resolutions_append)
qed

lemma chainAddEdges_step:
  assumes "ae_parts a = (p, es) # rest"
    and "getLeader c (numLookups tr) (ae_space_id a) p = StatusOrValue l"
    and "getErrorCode (getResponse c (numSends tr) evb (internalAddr c l)
           (ChainAddEdges (makeChainAddReq a t v))) = E_LEADER_CHANGED"
  shows "chainAddEdges c a t v evb tr =
         chainAddEdges c a t v (defaultEvb c)
           (tr @ [EvGetLeader (ae_space_id a) p,
                  EvSend evb (internalAddr c l) (ChainAddEdges (makeChainAddReq a t v)),
                  EvSleepMs 500])"
  using assms by (subst chainAddEdges.simps) simp

lemma chainAddEdges_fin:
  assumes "ae_parts a = (p, es) # rest"
    and "getLeader c (numLookups tr) (ae_space_id a) p = StatusOrValue l"
    and "getErrorCode (getResponse c (numSends tr) evb (internalAddr c l)
           (ChainAddEdges (makeChainAddReq a t v))) \<noteq> E_LEADER_CHANGED"
    and "resolutions tr = []"
  shows "chainAddEdges c a t v evb tr =
         Some (Inr (tr @ [EvGetLeader (ae_space_id a) p,
                  EvSend evb (internalAddr c l) (ChainAddEdges (makeChainAddReq a t v)),
                  EvSetValue (getErrorCode (getResponse c (numSends tr) evb (internalAddr c l)
                     (ChainAddEdges (makeChainAddReq a t v))))]))"
  using assms by (subst chainAddEdges.simps) (simp add: setValue_def resolutions_append)

lemma chainAddEdges_nol:
  assumes "ae_parts a = (p, es) # rest"
    and "\<not> ok (getLeader c (numLookups tr) (ae_space_id a) p)"
    and "resolutions tr = []"
  shows "chainAddEdges c a t v evb tr =
         Some (Inr (tr @ [EvGetLeader (ae_space_id a) p, EvSetValue E_SPACE_NOT_FOUND]))"
proof (cases "getLeader c (numLookups tr) (ae_space_id a) p")
  case (StatusOrValue l)
  with assms(2) show ?thesis by simp
next
  case (StatusOrStatus st)
  with assms(1,3) show ?thesis
    by (subst chainAddEdges.simps) (simp add: setValue_def resolutions_append)
qed

lemma chainDeleteEdges_step:
  assumes "de_parts d = (p, es) # rest"
    and "getLeader c (numLookups tr) (de_space_id d) p = StatusOrValue l"
    and "getErrorCode (getResponse c (numSends tr) evb (internalAddr c l)
           (ChainDeleteEdges (makeChainDeleteReq d x t))) = E_LEADER_CHANGED"
  shows "chainDeleteEdges c d x t evb tr =
         chainDeleteEdges c d x t (defaultEvb c)
           (tr @ [EvGetLeader (de_space_id d) p,
                  EvSend evb (internalAddr c l) (ChainDeleteEdges (makeChainDeleteReq d x t)),
                  EvSleepMs 500])"
  using assms by (subst chainDeleteEdges.simps) simp

lemma chainDeleteEdges_fin:
  assumes "de_parts d = (p, es) # rest"
    and "getLeader c (numLookups tr) (de_space_id d) p = StatusOrValue l"
    and "getErrorCode (getResponse c (numSends tr) evb (internalAddr c l)
           (ChainDeleteEdges (makeChainDeleteReq d x t))) \<noteq> E_LEADER_CHANGED"
    and "resolutions tr = []"
  shows "chainDeleteEdges c d x t evb tr =
         Some (Inr (tr @ [EvGetLeader (de_space_id d) p,
                  EvSend evb (internalAddr c l) (ChainDeleteEdges (makeChainDeleteReq d x t)),
                  EvSetValue (getErrorCode (getResponse c (numSends tr) evb (internalAddr c l)
                     (ChainDeleteEdges (makeChainDeleteReq d x t))))]))"
  using assms by (subst chainDeleteEdges.simps) (simp add: setValue_def resolutions_append)

lemma chainDeleteEdges_nol:
  assumes "de_parts d = (p, es) # rest"
    and "\<not> ok (getLeader c (numLookups tr) (de_space_id d) p)"
    and "resolutions tr = []"
  shows "chainDeleteEdges c d x t evb tr =
         Some (Inr (tr @ [EvGetLeader (de_space_id d) p, EvSetValue E_SPACE_NOT_FOUND]))"
proof (cases "getLeader c (numLookups tr) (de_space_id d) p")
  case (StatusOrValue l)
  with assms(2) show ?thesis by simp
next
  case (StatusOrStatus st)
  with assms(1,3) show ?thesis
    by (subst chainDeleteEdges.simps) (simp add: setValue_def resolutions_append)
qed

subsection \<open>Runs of each operation\<close>

lemma chainUpdateEdge_retries:
  assumes "\<forall>k<n. getLeader c (numLookups tr + k) (ue_space_id q) (ue_part_id q) = StatusOrValue (L k)"
    and "\<forall>k<n. getErrorCode (getResponse c (numSends tr + k) (evbAfter c evb k)
           (internalAddr c (L k)) (ChainUpdateEdge (makeChainUpdateReq q t v))) = E_LEADER_CHANGED"
  shows "chainUpdateEdge c q t v evb tr =
         chainUpdateEdge c q t v (evbAfter c evb n)
           (tr @ retryEvents c (ue_space_id q) (ue_part_id q)
                   (ChainUpdateEdge (makeChainUpdateReq q t v)) evb L n)"
  by (rule retry_generic [where f = "chainUpdateEdge c q t v", OF chainUpdateEdge_step assms])

lemma chainUpdateEdge_run:
  assumes "resolutions tr = []"
    and "\<forall>k\<le>n. getLeader c (numLookups tr + k) (ue_space_id q) (ue_part_id q) = StatusOrValue (L k)"
    and "\<forall>k<n. getErrorCode (getResponse c (numSends tr + k) (evbAfter c evb k)
           (internalAddr c (L k)) (ChainUpdateEdge (makeChainUpdateReq q t v))) = E_LEADER_CHANGED"
    and "getErrorCode (getResponse c (numSends tr + n) (evbAfter c evb n)
           (internalAddr c (L n)) (ChainUpdateEdge (makeChainUpdateReq q t v))) = e"
    and "e \<noteq> E_LEADER_CHANGED"
  shows "chainUpdateEdge c q t v evb tr =
         Some (Inr (tr @ retryEvents c (ue_space_id q) (ue_part_id q)
                          (ChainUpdateEdge (makeChainUpdateReq q t v)) evb L n
           @ [EvGetLeader (ue_space_id q) (ue_part_id q),
              EvSend (evbAfter c evb n) (internalAddr c (L n))
                (ChainUpdateEdge (makeChainUpdateReq q t v)),
              EvSetValue e]))"
  by (rule run_code_generic [where f = "chainUpdateEdge c q t v",
        OF chainUpdateEdge_step chainUpdateEdge_fin assms])

lemma chainUpdateEdge_run_noLeader:
  assumes "resolutions tr = []"
    and "\<forall>k<n. getLeader c (numLookups tr + k) (ue_space_id q) (ue_part_id q) = StatusOrValue (L k)"
    and "\<forall>k<n. getErrorCode (getResponse c (numSends tr + k) (evbAfter c evb k)
           (internalAddr c (L k)) (ChainUpdateEdge (makeChainUpdateReq q t v))) = E_LEADER_CHANGED"
    and "\<not> ok (getLeader c (numLookups tr + n) (ue_space_id q) (ue_part_id q))"
  shows "chainUpdateEdge c q t v evb tr =
         Some (Inr (tr @ retryEvents c (ue_space_id q) (ue_part_id q)
                          (ChainUpdateEdge (makeChainUpdateReq q t v)) evb L n
           @ [EvGetLeader (ue_space_id q) (ue_part_id q), EvSetValue E_SPACE_NOT_FOUND]))"
  by (rule run_noLeader_generic [where f = "chainUpdateEdge c q t v",
        OF chainUpdateEdge_step chainUpdateEdge_nol assms])

lemma chainAddEdges_retries:
  assumes parts: "ae_parts a = (p, es) # rest"
    and "\<forall>k<n. getLeader c (numLookups tr + k) (ae_space_id a) p = StatusOrValue (L k)"
    and "\<forall>k<n. getErrorCode (getResponse c (numSends tr + k) (evbAfter c evb k)
           (internalAddr c (L k)) (ChainAddEdges (makeChainAddReq a t v))) = E_LEADER_CHANGED"
  shows "chainAddEdges c a t v evb tr =
         chainAddEdges c a t v (evbAfter c evb n)
           (tr @ retryEvents c (ae_space_id a) p (ChainAddEdges (makeChainAddReq a t v)) evb L n)"
  by (rule retry_generic [where f = "chainAddEdges c a t v",
        OF chainAddEdges_step [OF parts] assms(2,3)])

lemma chainAddEdges_run:
  assumes parts: "ae_parts a = (p, es) # rest"
    and "resolutions tr = []"
    and "\<forall>k\<le>n. getLeader c (numLookups tr + k) (ae_space_id a) p = StatusOrValue (L k)"
    and "\<forall>k<n. getErrorCode (getResponse c (numSends tr + k) (evbAfter c evb k)
           (internalAddr c (L k)) (ChainAddEdges (makeChainAddReq a t v))) = E_LEADER_CHANGED"
    and "getErrorCode (getResponse c (numSends tr + n) (evbAfter c evb n)
           (internalAddr c (L n)) (ChainAddEdges (makeChainAddReq a t v))) = e"
    and "e \<noteq> E_LEADER_CHANGED"
  shows "chainAddEdges c a t v evb tr =
         Some (Inr (tr @ retryEvents c (ae_space_id a) p
                          (ChainAddEdges (makeChainAddReq a t v)) evb L n
           @ [EvGetLeader (ae_space_id a) p,
              EvSend (evbAfter c evb n) (internalAddr c (L n))
                (ChainAddEdges (makeChainAddReq a t v)),
              EvSetValue e]))"
  by (rule run_code_generic [where f = "chainAddEdges c a t v",
        OF chainAddEdges_step [OF parts] chainAddEdges_fin [OF parts] assms(2-)])

lemma chainAddEdges_run_noLeader:
  assumes parts: "ae_parts a = (p, es) # rest"
    and "resolutions tr = []"
    and "\<forall>k<n. getLeader c (numLookups tr + k) (ae_space_id a) p = StatusOrValue (L k)"
    and "\<forall>k<n. getErrorCode (getResponse c (numSends tr + k) (evbAfter c evb k)
           (internalAddr c (L k)) (ChainAddEdges (makeChainAddReq a t v))) = E_LEADER_CHANGED"
    and "\<not> ok (getLeader c (numLookups tr + n) (ae_space_id a) p)"
  shows "chainAddEdges c a t v evb tr =
         Some (Inr (tr @ retryEvents c (ae_space_id a) p
                          (ChainAddEdges (makeChainAddReq a t v)) evb L n
           @ [EvGetLeader (ae_space_id a) p, EvSetValue E_SPACE_NOT_FOUND]))"
  by (rule run_noLeader_generic [where f = "chainAddEdges c a t v",
        OF chainAddEdges_step [OF parts] chainAddEdges_nol [OF parts] assms(2-)])

lemma chainDeleteEdges_retries:
  assumes parts: "de_parts d = (p, es) # rest"
    and "\<forall>k<n. getLeader c (numLookups tr + k) (de_space_id d) p = StatusOrValue (L k)"
    and "\<forall>k<n. getErrorCode (getResponse c (numSends tr + k) (evbAfter c evb k)
           (internalAddr c (L k)) (ChainDeleteEdges (makeChainDeleteReq d x t))) = E_LEADER_CHANGED"
  shows "chainDeleteEdges c d x t evb tr =
         chainDeleteEdges c d x t (evbAfter c evb n)
           (tr @ retryEvents c (de_space_id d) p (ChainDeleteEdges (makeChainDeleteReq d x t)) evb L n)"
  by (rule retry_generic [where f = "chainDeleteEdges c d x t",
        OF chainDeleteEdges_step [OF parts] assms(2,3)])

lemma chainDeleteEdges_run:
  assumes parts: "de_parts d = (p, es) # rest"
    and "resolutions tr = []"
    and "\<forall>k\<le>n. getLeader c (numLookups tr + k) (de_space_id d) p = StatusOrValue (L k)"
    and "\<forall>k<n. getErrorCode (getResponse c (numSends tr + k) (evbAfter c evb k)
           (internalAddr c (L k)) (ChainDeleteEdges (makeChainDeleteReq d x t))) = E_LEADER_CHANGED"
    and "getErrorCode (getResponse c (numSends tr + n) (evbAfter c evb n)
           (internalAddr c (L n)) (ChainDeleteEdges (makeChainDeleteReq d x t))) = e"
    and "e \<noteq> E_LEADER_CHANGED"
  shows "chainDeleteEdges c d x t evb tr =
         Some (Inr (tr @ retryEvents c (de_space_id d) p
                          (ChainDeleteEdges (makeChainDeleteReq d x t)) evb L n
           @ [EvGetLeader (de_space_id d) p,
              EvSend (evbAfter c evb n) (internalAddr c (L n))
                (ChainDeleteEdges (makeChainDeleteReq d x t)),
              EvSetValue e]))"
  by (rule run_code_generic [where f = "chainDeleteEdges c d x t",
        OF chainDeleteEdges_step [OF parts] chainDeleteEdges_fin [OF parts] assms(2-)])

lemma chainDeleteEdges_run_noLeader:
  assumes parts: "de_parts d = (p, es) # rest"
    and "resolutions tr = []"
    and "\<forall>k<n. getLeader c (numLookups tr + k) (de_space_id d) p = StatusOrValue (L k)"
    and "\<forall>k<n. getErrorCode (getResponse c (numSends tr + k) (evbAfter c evb k)
           (internalAddr c (L k)) (ChainDeleteEdges (makeChainDeleteReq d x t))) = E_LEADER_CHANGED"
    and "\<not> ok (getLeader c (numLookups tr + n) (de_space_id d) p)"
  shows "chainDeleteEdges c d x t evb tr =
         Some (Inr (tr @ retryEvents c (de_space_id d) p
                          (ChainDeleteEdges (makeChainDeleteReq d x t)) evb L n
           @ [EvGetLeader (de_space_id d) p, EvSetValue E_SPACE_NOT_FOUND]))"
  by (rule run_noLeader_generic [where f = "chainDeleteEdges c d x t",
        OF chainDeleteEdges_step [OF parts] chainDeleteEdges_nol [OF parts] assms(2-)])

subsection \<open>The retry has no bound\<close>

text \<open>
  When every lookup finds a leader and every request is answered with "leader changed",
  chainUpdateEdge does not come to an end, and its promise stays unresolved.
\<close>

lemma chainUpdateEdge_never_ends:
  assumes look: "\<forall>k. ok (getLeader c k (ue_space_id q) (ue_part_id q))"
    and resp: "\<forall>k b h. getErrorCode (getResponse c k b h
                 (ChainUpdateEdge (makeChainUpdateReq q t v))) = E_LEADER_CHANGED"
  shows "chainUpdateEdge c q t v evb tr = None"
proof (cases "chainUpdateEdge c q t v evb tr")
  case None
  then show ?thesis .
next
  case (Some y)
  have "\<not> ((\<forall>k. ok (getLeader c k (ue_space_id q) (ue_part_id q)))
          \<and> (\<forall>k b h. getErrorCode (getResponse c k b h
                 (ChainUpdateEdge (makeChainUpdateReq q t v))) = E_LEADER_CHANGED))"
  proof (rule chainUpdateEdge.raw_induct
      [where P = "\<lambda>c q t v evb tr y.
          \<not> ((\<forall>k. ok (getLeader c k (ue_space_id q) (ue_part_id q)))
          \<and> (\<forall>k b h. getErrorCode (getResponse c k b h
                 (ChainUpdateEdge (makeChainUpdateReq q t v))) = E_LEADER_CHANGED))", OF _ Some])
    fix f :: "InternalStorageClient \<Rightarrow> UpdateEdgeRequest \<Rightarrow> TermID \<Rightarrow> 64 word option \<Rightarrow>
              EventBasePtr \<Rightarrow> event list \<Rightarrow> (failure + event list) option"
      and c q t v evb tr y
    assume IH: "\<And>(c :: InternalStorageClient) (q :: UpdateEdgeRequest) t v evb tr y.
          f c q t v evb tr = Some y \<Longrightarrow>
          \<not> ((\<forall>k. ok (getLeader c k (ue_space_id q) (ue_part_id q)))
          \<and> (\<forall>k b h. getErrorCode (getResponse c k b h
                 (ChainUpdateEdge (makeChainUpdateReq q t v))) = E_LEADER_CHANGED))"
    assume step: "(case getLeader c (numLookups tr) (ue_space_id q) (ue_part_id q) of
        StatusOrValue optLeader \<Rightarrow>
          (if getErrorCode (getResponse c (numSends tr) evb (internalAddr c optLeader)
                 (ChainUpdateEdge (makeChainUpdateReq q t v)))
              = E_LEADER_CHANGED
           then f c q t v (defaultEvb c)
                  (tr @ [EvGetLeader (ue_space_id q) (ue_part_id q),
                         EvSend evb (internalAddr c optLeader)
                           (ChainUpdateEdge (makeChainUpdateReq q t v)),
                         EvSleepMs 500])
           else Some (setValue
                  (getErrorCode (getResponse c (numSends tr) evb (internalAddr c optLeader)
                     (ChainUpdateEdge (makeChainUpdateReq q t v))))
                  (tr @ [EvGetLeader (ue_space_id q) (ue_part_id q),
                         EvSend evb (internalAddr c optLeader)
                           (ChainUpdateEdge (makeChainUpdateReq q t v))])))
      | StatusOrStatus st \<Rightarrow>
          Some (setValue E_SPACE_NOT_FOUND
            (tr @ [EvGetLeader (ue_space_id q) (ue_part_id q)]))) = Some y"
    show "\<not> ((\<forall>k. ok (getLeader c k (ue_space_id q) (ue_part_id q)))
          \<and> (\<forall>k b h. getErrorCode (getResponse c k b h
                 (ChainUpdateEdge (makeChainUpdateReq q t v))) = E_LEADER_CHANGED))"
    proof
      assume always: "(\<forall>k. ok (getLeader c k (ue_space_id q) (ue_part_id q)))
          \<and> (\<forall>k b h. getErrorCode (getResponse c k b h
                 (ChainUpdateEdge (makeChainUpdateReq q t v))) = E_LEADER_CHANGED)"
      then have "ok (getLeader c (numLookups tr) (ue_space_id q) (ue_part_id q))"
        by blast
      then obtain l where
        l: "getLeader c (numLookups tr) (ue_space_id q) (ue_part_id q) = StatusOrValue l"
        by (cases "getLeader c (numLookups tr) (ue_space_id q) (ue_part_id q)") simp_all
      with always step obtain tr' where "f c q t v (defaultEvb c) tr' = Some y"
        by simp
      from IH [OF this] always show False by simp
    qed
  qed
  with assms show ?thesis by simp
qed

section \<open>Properties of the chain operations\<close>

text \<open>
  C3. For each of chainUpdateEdge, chainAddEdges and chainDeleteEdges: when the leader
  lookup fails, the operation resolves its promise at once with E_SPACE_NOT_FOUND; the
  trace of the operation is the one lookup followed by the setValue, so nothing is sent
  and the lookup is not tried again.
\<close>

theorem chain_lookup_failure:
  assumes "resolutions tr = []"
  shows "(\<not> ok (getLeader c (numLookups tr) (ue_space_id q) (ue_part_id q)) \<longrightarrow>
            chainUpdateEdge c q t v evb tr =
              Some (Inr (tr @ [EvGetLeader (ue_space_id q) (ue_part_id q),
                               EvSetValue E_SPACE_NOT_FOUND])))
       \<and> (ae_parts a = (p, es) # rest \<and> \<not> ok (getLeader c (numLookups tr) (ae_space_id a) p) \<longrightarrow>
            chainAddEdges c a t v evb tr =
              Some (Inr (tr @ [EvGetLeader (ae_space_id a) p, EvSetValue E_SPACE_NOT_FOUND])))
       \<and> (de_parts d = (p', ks) # rest' \<and> \<not> ok (getLeader c (numLookups tr) (de_space_id d) p') \<longrightarrow>
            chainDeleteEdges c d x t evb tr =
              Some (Inr (tr @ [EvGetLeader (de_space_id d) p', EvSetValue E_SPACE_NOT_FOUND])))"
  using assms
  by (simp add: chainUpdateEdge_nol chainAddEdges_nol chainDeleteEdges_nol)

theorem chain_lookup_failure_witness:
  "chainUpdateEdge exClientNoLeader exUpdate 5 None 9 [] =
     Some (Inr [EvGetLeader 1 2, EvSetValue E_SPACE_NOT_FOUND])
   \<and> chainAddEdges exClientNoLeader exAdd 5 None 9 [] =
     Some (Inr [EvGetLeader 1 2, EvSetValue E_SPACE_NOT_FOUND])
   \<and> chainDeleteEdges exClientNoLeader exDelete ''txn'' 5 9 [] =
     Some (Inr [EvGetLeader 1 2, EvSetValue E_SPACE_NOT_FOUND])"
  using chain_lookup_failure [of "[]" exClientNoLeader exUpdate 5 None 9
          exAdd 2 "[''e1'']" "[(3, [''e2''])]" exDelete 2 "[''k1'']" "[(3, [''k2''])]" "''txn''"]
  by (simp add: exClientNoLeader_def exUpdate_def exAdd_def exDelete_def)

text \<open>
  C2. For each chain operation: when the first n attempts find a leader and are answered
  with "leader changed", and attempt n + 1 finds a leader and is answered with success,
  the operation comes to an end; its trace is n times lookup, send, sleep of 500 ms, then
  lookup, send and setValue SUCCEEDED. So it makes n + 1 lookups and n + 1 sends, the
  k-th send goes to the leader that the k-th lookup found, and the promise is resolved
  once, with SUCCEEDED.
\<close>

theorem chain_retry_until_success:
  assumes "resolutions tr = []"
    and "\<forall>k\<le>n. getLeader c (numLookups tr + k) s p = StatusOrValue (L k)"
    and "\<forall>k<n. getErrorCode (getResponse c (numSends tr + k) (evbAfter c evb k)
           (internalAddr c (L k)) r) = E_LEADER_CHANGED"
    and "getErrorCode (getResponse c (numSends tr + n) (evbAfter c evb n)
           (internalAddr c (L n)) r) = SUCCEEDED"
  shows "let tr' = tr @ retryEvents c s p r evb L n
                 @ [EvGetLeader s p, EvSend (evbAfter c evb n) (internalAddr c (L n)) r,
                    EvSetValue SUCCEEDED]
         in (s = ue_space_id q \<and> p = ue_part_id q \<and> r = ChainUpdateEdge (makeChainUpdateReq q t v)
               \<longrightarrow> chainUpdateEdge c q t v evb tr = Some (Inr tr'))
          \<and> (s = ae_space_id a \<and> ae_parts a = (p, es) # rest \<and> r = ChainAddEdges (makeChainAddReq a t v)
               \<longrightarrow> chainAddEdges c a t v evb tr = Some (Inr tr'))
          \<and> (s = de_space_id d \<and> de_parts d = (p, ks) # rest' \<and> r = ChainDeleteEdges (makeChainDeleteReq d x t)
               \<longrightarrow> chainDeleteEdges c d x t evb tr = Some (Inr tr'))
          \<and> numLookups tr' = numLookups tr + n + 1
          \<and> numSends tr' = numSends tr + n + 1
          \<and> resolutions tr' = [SUCCEEDED]
          \<and> sleeps tr' = sleeps tr @ replicate n 500
          \<and> map (fst \<circ> snd) (drop (length (sends tr)) (sends tr'))
              = map (\<lambda>k. internalAddr c (L k)) [0..<Suc n]"
proof -
  have upd: "chainUpdateEdge c q t v evb tr =
      Some (Inr (tr @ retryEvents c s p r evb L n
                 @ [EvGetLeader s p, EvSend (evbAfter c evb n) (internalAddr c (L n)) r,
                    EvSetValue SUCCEEDED]))"
    if "s = ue_space_id q" "p = ue_part_id q" "r = ChainUpdateEdge (makeChainUpdateReq q t v)"
    using chainUpdateEdge_run [of tr n c q L evb t v SUCCEEDED] assms that by simp
  have add: "chainAddEdges c a t v evb tr =
      Some (Inr (tr @ retryEvents c s p r evb L n
                 @ [EvGetLeader s p, EvSend (evbAfter c evb n) (internalAddr c (L n)) r,
                    EvSetValue SUCCEEDED]))"
    if "s = ae_space_id a" "ae_parts a = (p, es) # rest" "r = ChainAddEdges (makeChainAddReq a t v)"
    using chainAddEdges_run [of a p es rest tr n c L evb t v SUCCEEDED] assms that by simp
  have del: "chainDeleteEdges c d x t evb tr =
      Some (Inr (tr @ retryEvents c s p r evb L n
                 @ [EvGetLeader s p, EvSend (evbAfter c evb n) (internalAddr c (L n)) r,
                    EvSetValue SUCCEEDED]))"
    if "s = de_space_id d" "de_parts d = (p, ks) # rest'" "r = ChainDeleteEdges (makeChainDeleteReq d x t)"
    using chainDeleteEdges_run [of d p ks rest' tr n c L evb x t SUCCEEDED] assms that by simp
  let ?new = "retryEvents c s p r evb L n
                 @ [EvGetLeader s p, EvSend (evbAfter c evb n) (internalAddr c (L n)) r,
                    EvSetValue SUCCEEDED]"
  have nl: "numLookups (tr @ ?new) = numLookups tr + n + 1"
    by (simp add: numLookups_append numLookups_retryEvents)
  have ns: "numSends (tr @ ?new) = numSends tr + n + 1"
    by (simp add: numSends_append numSends_retryEvents)
  have rs: "resolutions (tr @ ?new) = [SUCCEEDED]"
    using assms(1) by (simp add: resolutions_append resolutions_retryEvents)
  have sl: "sleeps (tr @ ?new) = sleeps tr @ replicate n 500"
    by (simp add: sleeps_append sleeps_retryEvents)
  have "sends (tr @ ?new) = sends tr @ sends ?new"
    by (simp add: sends_append)
  then have "drop (length (sends tr)) (sends (tr @ ?new)) = sends ?new"
    by simp
  also have "map (fst \<circ> snd) (sends ?new) = map (\<lambda>k. internalAddr c (L k)) [0..<Suc n]"
    by (simp add: sends_append sends_retryEvents comp_def)
  finally have tg: "map (fst \<circ> snd) (drop (length (sends tr)) (sends (tr @ ?new)))
                 = map (\<lambda>k. internalAddr c (L k)) [0..<Suc n]" .
  show ?thesis
    unfolding Let_def
    using upd add del nl ns rs sl tg by (simp del: upt_Suc)
qed

theorem chain_retry_until_success_witness:
  "chainUpdateEdge (exClient 2 exOk) exUpdate 5 None 9 [] =
     Some (Inr
       [EvGetLeader 1 2,
        EvSend 9 (internalAddr (exClient 2 exOk) (exLeader 0))
          (ChainUpdateEdge (makeChainUpdateReq exUpdate 5 None)),
        EvSleepMs 500,
        EvGetLeader 1 2,
        EvSend 0 (internalAddr (exClient 2 exOk) (exLeader 1))
          (ChainUpdateEdge (makeChainUpdateReq exUpdate 5 None)),
        EvSleepMs 500,
        EvGetLeader 1 2,
        EvSend 0 (internalAddr (exClient 2 exOk) (exLeader 2))
          (ChainUpdateEdge (makeChainUpdateReq exUpdate 5 None)),
        EvSetValue SUCCEEDED])"
proof -
  have look: "\<forall>k\<le>2. getLeader (exClient 2 exOk) (numLookups [] + k) 1 2 = StatusOrValue (exLeader k)"
    by (simp add: exClient_def)
  have resp: "\<forall>k<2. getErrorCode (getResponse (exClient 2 exOk) (numSends [] + k)
                 (evbAfter (exClient 2 exOk) 9 k) (internalAddr (exClient 2 exOk) (exLeader k))
                 (ChainUpdateEdge (makeChainUpdateReq exUpdate 5 None))) = E_LEADER_CHANGED"
    by (simp add: exClient_def)
  have last: "getErrorCode (getResponse (exClient 2 exOk) (numSends [] + 2)
                 (evbAfter (exClient 2 exOk) 9 2) (internalAddr (exClient 2 exOk) (exLeader 2))
                 (ChainUpdateEdge (makeChainUpdateReq exUpdate 5 None))) = SUCCEEDED"
    by (simp add: exClient_def exOk_def)
  have ev: "\<And>n f. defaultEvb (exClient n f) = 0"
    by (simp add: exClient_def)
  show ?thesis
    using chain_retry_until_success [of "[]" 2 "exClient 2 exOk" 1 2 exLeader 9
            "ChainUpdateEdge (makeChainUpdateReq exUpdate 5 None)" exUpdate 5 None, OF _ look resp last]
    by (simp add: Let_def numeral_2_eq_2 ev evbAfter_def exUpdate_def)
qed

text \<open>
  C10. For each chain operation: on a run of n attempts answered with "leader changed"
  followed by an attempt with another answer, the operation comes to an end, and of the
  n + 1 requests it hands to getResponse the first goes with the caller's event base
  and each of the n requests of the retried attempts with the default event base, not
  the one the caller passed in.
\<close>

theorem chain_retry_default_evb:
  assumes "resolutions tr = []"
    and "\<forall>k\<le>n. getLeader c (numLookups tr + k) s p = StatusOrValue (L k)"
    and "\<forall>k<n. getErrorCode (getResponse c (numSends tr + k) (evbAfter c evb k)
           (internalAddr c (L k)) r) = E_LEADER_CHANGED"
    and "getErrorCode (getResponse c (numSends tr + n) (evbAfter c evb n)
           (internalAddr c (L n)) r) = e"
    and "e \<noteq> E_LEADER_CHANGED"
  shows "(s = ue_space_id q \<and> p = ue_part_id q \<and> r = ChainUpdateEdge (makeChainUpdateReq q t v)
            \<longrightarrow> (\<exists>tr'. chainUpdateEdge c q t v evb tr = Some (Inr tr')
                   \<and> map fst (sends tr') = map fst (sends tr) @ evb # replicate n (defaultEvb c)))
       \<and> (s = ae_space_id a \<and> ae_parts a = (p, es) # rest \<and> r = ChainAddEdges (makeChainAddReq a t v)
            \<longrightarrow> (\<exists>tr'. chainAddEdges c a t v evb tr = Some (Inr tr')
                   \<and> map fst (sends tr') = map fst (sends tr) @ evb # replicate n (defaultEvb c)))
       \<and> (s = de_space_id d \<and> de_parts d = (p, ks) # rest' \<and> r = ChainDeleteEdges (makeChainDeleteReq d x t)
            \<longrightarrow> (\<exists>tr'. chainDeleteEdges c d x t evb tr = Some (Inr tr')
                   \<and> map fst (sends tr') = map fst (sends tr) @ evb # replicate n (defaultEvb c)))"
proof -
  let ?new = "retryEvents c s p r evb L n
                 @ [EvGetLeader s p, EvSend (evbAfter c evb n) (internalAddr c (L n)) r,
                    EvSetValue e]"
  have upd: "chainUpdateEdge c q t v evb tr = Some (Inr (tr @ ?new))"
    if "s = ue_space_id q" "p = ue_part_id q" "r = ChainUpdateEdge (makeChainUpdateReq q t v)"
    using chainUpdateEdge_run [of tr n c q L evb t v e] assms that by simp
  have add: "chainAddEdges c a t v evb tr = Some (Inr (tr @ ?new))"
    if "s = ae_space_id a" "ae_parts a = (p, es) # rest" "r = ChainAddEdges (makeChainAddReq a t v)"
    using chainAddEdges_run [of a p es rest tr n c L evb t v e] assms that by simp
  have del: "chainDeleteEdges c d x t evb tr = Some (Inr (tr @ ?new))"
    if "s = de_space_id d" "de_parts d = (p, ks) # rest'" "r = ChainDeleteEdges (makeChainDeleteReq d x t)"
    using chainDeleteEdges_run [of d p ks rest' tr n c L evb x t e] assms that by simp
  have "map fst (sends ?new) = map (evbAfter c evb) [0..<Suc n]"
    by (simp add: sends_append sends_retryEvents comp_def)
  also have "\<dots> = evb # map (\<lambda>k. defaultEvb c) [0..<n]"
    by (simp add: upt_conv_Cons map_Suc_upt [symmetric] evbAfter_def del: upt_Suc)
  also have "\<dots> = evb # replicate n (defaultEvb c)"
    by (simp add: map_replicate_const)
  finally have "map fst (sends (tr @ ?new))
                  = map fst (sends tr) @ evb # replicate n (defaultEvb c)"
    by (simp add: sends_append)
  then show ?thesis
    using upd add del by blast
qed

theorem chain_retry_default_evb_witness:
  "(\<exists>tr'. chainUpdateEdge (exClient 2 exOk) exUpdate 5 None 9 [] = Some (Inr tr')
        \<and> map fst (sends tr') = [9, 0, 0])
   \<and> (\<exists>tr'. chainAddEdges (exClient 2 exOk) exAdd 5 None 9 [] = Some (Inr tr')
        \<and> map fst (sends tr') = [9, 0, 0])
   \<and> (\<exists>tr'. chainDeleteEdges (exClient 2 exOk) exDelete ''txn'' 5 9 [] = Some (Inr tr')
        \<and> map fst (sends tr') = [9, 0, 0])"
proof -
  let ?c = "exClient 2 exOk"
  have look: "\<forall>k\<le>2. getLeader ?c (numLookups [] + k) 1 2 = StatusOrValue (exLeader k)"
    by (simp add: exClient_def)
  have resp: "\<forall>k<2. getErrorCode (getResponse ?c (numSends [] + k) (evbAfter ?c 9 k)
                 (internalAddr ?c (exLeader k)) r) = E_LEADER_CHANGED" for r
    by (simp add: exClient_def)
  have last: "getErrorCode (getResponse ?c (numSends [] + 2) (evbAfter ?c 9 2)
                 (internalAddr ?c (exLeader 2)) r) = SUCCEEDED" for r
    by (simp add: exClient_def exOk_def)
  have ev: "\<And>n f. defaultEvb (exClient n f) = 0"
    by (simp add: exClient_def)
  have upd: "\<exists>tr'. chainUpdateEdge ?c exUpdate 5 None 9 [] = Some (Inr tr')
        \<and> map fst (sends tr') = [9, 0, 0]"
    using chain_retry_default_evb [where tr = "[]" and n = 2 and c = ?c and s = 1 and p = 2
            and L = exLeader and evb = 9 and e = SUCCEEDED
            and r = "ChainUpdateEdge (makeChainUpdateReq exUpdate 5 None)"
            and q = exUpdate and t = 5 and v = None, OF _ look resp last]
    by (simp add: ev exUpdate_def numeral_2_eq_2)
  have add: "\<exists>tr'. chainAddEdges ?c exAdd 5 None 9 [] = Some (Inr tr')
        \<and> map fst (sends tr') = [9, 0, 0]"
    using chain_retry_default_evb [where tr = "[]" and n = 2 and c = ?c and s = 1 and p = 2
            and L = exLeader and evb = 9 and e = SUCCEEDED
            and r = "ChainAddEdges (makeChainAddReq exAdd 5 None)"
            and a = exAdd and es = "[''e1'']" and rest = "[(3, [''e2''])]"
            and t = 5 and v = None, OF _ look resp last]
    by (simp add: ev exAdd_def numeral_2_eq_2)
  have del: "\<exists>tr'. chainDeleteEdges ?c exDelete ''txn'' 5 9 [] = Some (Inr tr')
        \<and> map fst (sends tr') = [9, 0, 0]"
    using chain_retry_default_evb [where tr = "[]" and n = 2 and c = ?c and s = 1 and p = 2
            and L = exLeader and evb = 9 and e = SUCCEEDED
            and r = "ChainDeleteEdges (makeChainDeleteReq exDelete ''txn'' 5)"
            and d = exDelete and ks = "[''k1'']" and rest' = "[(3, [''k2''])]"
            and x = "''txn''" and t = 5, OF _ look resp last]
    by (simp add: ev exDelete_def numeral_2_eq_2)
  show ?thesis
    using upd add del by blast
qed

text \<open>
  C9. chainAddEdges and chainDeleteEdges read the partition id of the first entry of the
  request's parts: on a request with no parts they have no defined behaviour. On a
  request with parts, what the operation does depends on the leader lookups for that first
  partition alone; every lookup asks for it, and every request sent goes to the leader
  found for it and carries all the parts of the request.
\<close>

theorem chain_first_partition_only:
  assumes "resolutions tr = []"
    and "\<forall>k\<le>n. getLeader c (numLookups tr + k) s p = StatusOrValue (L k)"
    and "\<forall>k<n. getErrorCode (getResponse c (numSends tr + k) (evbAfter c evb k)
           (internalAddr c (L k)) r) = E_LEADER_CHANGED"
    and "getErrorCode (getResponse c (numSends tr + n) (evbAfter c evb n)
           (internalAddr c (L n)) r) = e"
    and "e \<noteq> E_LEADER_CHANGED"
  shows "let new = retryEvents c s p r evb L n
                 @ [EvGetLeader s p, EvSend (evbAfter c evb n) (internalAddr c (L n)) r,
                    EvSetValue e]
         in (ae_parts a = [] \<longrightarrow> chainAddEdges c a t v evb tr = Some (Inl UndefinedBehaviour))
          \<and> (de_parts d = [] \<longrightarrow> chainDeleteEdges c d x t evb tr = Some (Inl UndefinedBehaviour))
          \<and> (s = ae_space_id a \<and> ae_parts a = (p, es) # rest \<and> r = ChainAddEdges (makeChainAddReq a t v)
               \<longrightarrow> chainAddEdges c a t v evb tr = Some (Inr (tr @ new))
                 \<and> cae_parts (makeChainAddReq a t v) = (p, es) # rest)
          \<and> (s = de_space_id d \<and> de_parts d = (p, ks) # rest' \<and> r = ChainDeleteEdges (makeChainDeleteReq d x t)
               \<longrightarrow> chainDeleteEdges c d x t evb tr = Some (Inr (tr @ new))
                 \<and> cde_parts (makeChainDeleteReq d x t) = (p, ks) # rest')
          \<and> lookups new = replicate (Suc n) (s, p)
          \<and> map (\<lambda>(b, h, q). (h, q)) (sends new) = map (\<lambda>k. (internalAddr c (L k), r)) [0..<Suc n]"
proof -
  have ub_add: "chainAddEdges c a t v evb tr = Some (Inl UndefinedBehaviour)" if "ae_parts a = []"
    using that by (subst chainAddEdges.simps) simp
  have ub_del: "chainDeleteEdges c d x t evb tr = Some (Inl UndefinedBehaviour)" if "de_parts d = []"
    using that by (subst chainDeleteEdges.simps) simp
  have add: "chainAddEdges c a t v evb tr =
      Some (Inr (tr @ retryEvents c s p r evb L n
                 @ [EvGetLeader s p, EvSend (evbAfter c evb n) (internalAddr c (L n)) r,
                    EvSetValue e]))"
    if "s = ae_space_id a" "ae_parts a = (p, es) # rest" "r = ChainAddEdges (makeChainAddReq a t v)"
    using chainAddEdges_run [of a p es rest tr n c L evb t v e] assms that by simp
  have del: "chainDeleteEdges c d x t evb tr =
      Some (Inr (tr @ retryEvents c s p r evb L n
                 @ [EvGetLeader s p, EvSend (evbAfter c evb n) (internalAddr c (L n)) r,
                    EvSetValue e]))"
    if "s = de_space_id d" "de_parts d = (p, ks) # rest'" "r = ChainDeleteEdges (makeChainDeleteReq d x t)"
    using chainDeleteEdges_run [of d p ks rest' tr n c L evb x t e] assms that by simp
  have look: "lookups (retryEvents c s p r evb L n
                 @ [EvGetLeader s p, EvSend (evbAfter c evb n) (internalAddr c (L n)) r,
                    EvSetValue e]) = replicate (Suc n) (s, p)"
    by (simp add: lookups_append lookups_retryEvents replicate_append_same)
  have snd: "map (\<lambda>(b, h, q). (h, q)) (sends (retryEvents c s p r evb L n
                 @ [EvGetLeader s p, EvSend (evbAfter c evb n) (internalAddr c (L n)) r,
                    EvSetValue e])) = map (\<lambda>k. (internalAddr c (L k), r)) [0..<Suc n]"
    by (simp add: sends_append sends_retryEvents comp_def)
  show ?thesis
    unfolding Let_def
    using ub_add ub_del add del look snd
    by (simp add: makeChainAddReq_def makeChainDeleteReq_def del: upt_Suc replicate_Suc)
qed

theorem chain_first_partition_only_witness:
  "chainDeleteEdges (exClient 0 exOk) exDelete ''txn'' 5 9 [] =
     Some (Inr
       [EvGetLeader 1 2,
        EvSend 9 (internalAddr (exClient 0 exOk) (exLeader 0))
          (ChainDeleteEdges (makeChainDeleteReq exDelete ''txn'' 5)),
        EvSetValue SUCCEEDED])
   \<and> cde_parts (makeChainDeleteReq exDelete ''txn'' 5) = [(2, [''k1'']), (3, [''k2''])]"
proof -
  have look: "\<forall>k\<le>0. getLeader (exClient 0 exOk) (numLookups [] + k) 1 2 = StatusOrValue (exLeader k)"
    by (simp add: exClient_def)
  have resp: "\<forall>k<0. getErrorCode (getResponse (exClient 0 exOk) (numSends [] + k)
                 (evbAfter (exClient 0 exOk) 9 k) (internalAddr (exClient 0 exOk) (exLeader k))
                 (ChainDeleteEdges (makeChainDeleteReq exDelete ''txn'' 5))) = E_LEADER_CHANGED"
    by simp
  have last: "getErrorCode (getResponse (exClient 0 exOk) (numSends [] + 0)
                 (evbAfter (exClient 0 exOk) 9 0) (internalAddr (exClient 0 exOk) (exLeader 0))
                 (ChainDeleteEdges (makeChainDeleteReq exDelete ''txn'' 5))) = SUCCEEDED"
    by (simp add: exClient_def exOk_def)
  have parts: "de_parts exDelete = [(2, [''k1'']), (3, [''k2''])]" "de_space_id exDelete = 1"
    by (simp_all add: exDelete_def)
  show ?thesis
    using chain_first_partition_only [where tr = "[]" and n = 0 and c = "exClient 0 exOk"
            and s = 1 and p = 2 and L = exLeader and evb = 9
            and r = "ChainDeleteEdges (makeChainDeleteReq exDelete ''txn'' 5)" and e = SUCCEEDED
            and d = exDelete and x = "''txn''" and t = 5 and ks = "[''k1'']"
            and rest' = "[(3, [''k2''])]", OF _ look resp last]
    by (simp add: Let_def parts evbAfter_def)
qed

section \<open>The retry loop of the snapshot callback\<close>

lemma snNumSends_append: "snNumSends (a @ b) = snNumSends a + snNumSends b"
  by (induction a rule: snNumSends.induct) simp_all

lemma snResolutions_append: "snResolutions (a @ b) = snResolutions a @ snResolutions b"
  by (induction a rule: snResolutions.induct) simp_all

lemma snSends_append: "snSends (a @ b) = snSends a @ snSends b"
  by (induction a rule: snSends.induct) simp_all

lemma snNumSends_failedAttempts: "snNumSends (failedAttempts c e n) = n"
  by (induction n arbitrary: e) simp_all

lemma snResolutions_failedAttempts: "snResolutions (failedAttempts c e n) = []"
  by (induction n arbitrary: e) simp_all

lemma snSends_failedAttempts: "snSends (failedAttempts c e n) = replicate n c"
  by (induction n arbitrary: e) simp_all

lemma snSetValue_pending:
  "snResolutions tr = [] \<Longrightarrow> snSetValue v tr = Inr (tr @ [SnSetValue v])"
  by (simp add: snSetValue_def)

lemma snSetValue_Inr:
  "snSetValue v tr = Inr tr' \<Longrightarrow> tr' = tr @ [SnSetValue v]"
  by (simp add: snSetValue_def split: if_splits)

lemma sendLoop_exhausted:
  assumes "retry \<le> 0" and "snResolutions tr = []"
  shows "sendLoop m cap r retry tr = Inr (False, tr @ [SnSetValue sendSnapshotFailed])"
  using assms by (subst sendLoop.simps) (simp add: snSetValue_pending)

lemma sendLoop_exception:
  assumes "0 < retry"
    and "future_sendSnapshot m (snNumSends tr) (fst (sendOf cap r)) (snd (sendOf cap r)) = Inl e"
  shows "sendLoop m cap r retry tr =
         sendLoop m cap r (retry - 1)
           (tr @ [SnSend (fst (sendOf cap r)) (snd (sendOf cap r)), SnRecv (Inl e), SnSleep 1])"
  using assms by (subst sendLoop.simps) simp

lemma sendLoop_refused:
  assumes "0 < retry"
    and "future_sendSnapshot m (snNumSends tr) (fst (sendOf cap r)) (snd (sendOf cap r)) = Inr resp"
    and "error_code resp \<noteq> SUCCEEDED"
    and "snResolutions tr = []"
  shows "sendLoop m cap r retry tr =
         Inr (False, tr @ [SnSend (fst (sendOf cap r)) (snd (sendOf cap r)), SnRecv (Inr resp),
                           SnSetValue sendSnapshotFailed])"
  using assms
  by (subst sendLoop.simps) (simp add: snSetValue_pending snResolutions_append)

lemma sendLoop_acked:
  assumes "0 < retry"
    and "future_sendSnapshot m (snNumSends tr) (fst (sendOf cap r)) (snd (sendOf cap r)) = Inr resp"
    and "error_code resp = SUCCEEDED"
    and "snResolutions tr = []"
  shows "sendLoop m cap r retry tr =
         Inr (True, tr @ [SnSend (fst (sendOf cap r)) (snd (sendOf cap r)), SnRecv (Inr resp)]
                       @ (if status r = DONE
                          then [SnSetValue (StatusOrValue (cap_commitLogIdAndTerm cap))] else []))"
  using assms
  by (subst sendLoop.simps) (simp add: snSetValue_pending snResolutions_append)

lemma sendLoop_exceptions:
  assumes "\<forall>k<n. future_sendSnapshot m (snNumSends tr + k) (fst (sendOf cap r)) (snd (sendOf cap r))
                  = Inl (e k)"
    and "int n \<le> retry"
  shows "sendLoop m cap r retry tr =
         sendLoop m cap r (retry - int n) (tr @ failedAttempts (sendOf cap r) e n)"
  using assms
proof (induction n arbitrary: retry tr e)
  case 0
  show ?case by simp
next
  case (Suc n)
  let ?tr = "tr @ [SnSend (fst (sendOf cap r)) (snd (sendOf cap r)), SnRecv (Inl (e 0)), SnSleep 1]"
  have first: "sendLoop m cap r retry tr = sendLoop m cap r (retry - 1) ?tr"
  proof (rule sendLoop_exception)
    show "0 < retry" using Suc.prems(2) by simp
    show "future_sendSnapshot m (snNumSends tr) (fst (sendOf cap r)) (snd (sendOf cap r)) = Inl (e 0)"
      using Suc.prems(1) [rule_format, of 0] by simp
  qed
  have later: "\<forall>k<n. future_sendSnapshot m (snNumSends ?tr + k) (fst (sendOf cap r))
                   (snd (sendOf cap r)) = Inl (e (Suc k))"
  proof (intro allI impI)
    fix k assume "k < n"
    then have "future_sendSnapshot m (snNumSends tr + Suc k) (fst (sendOf cap r))
                 (snd (sendOf cap r)) = Inl (e (Suc k))"
      using Suc.prems(1) [rule_format, of "Suc k"] by simp
    then show "future_sendSnapshot m (snNumSends ?tr + k) (fst (sendOf cap r))
                 (snd (sendOf cap r)) = Inl (e (Suc k))"
      by (simp add: snNumSends_append)
  qed
  have budget: "int n \<le> retry - 1"
    using Suc.prems(2) by simp
  have "sendLoop m cap r (retry - 1) ?tr =
        sendLoop m cap r (retry - 1 - int n) (?tr @ failedAttempts (sendOf cap r) (\<lambda>k. e (Suc k)) n)"
    by (rule Suc.IH [OF later budget])
  with first show ?case by (simp add: algebra_simps)
qed

text \<open>
  What the loop does when the promise is still unresolved, whatever the remote end
  answers: it returns, it resolves the promise unless it returns true for a chunk that
  is not the last, and its part of the trace keeps the order of \<open>serialInOrder\<close>.
\<close>

lemma sendLoop_pending:
  assumes "snResolutions tr = []"
  shows "\<exists>b evs. sendLoop m cap r retry tr = Inr (b, tr @ evs)
           \<and> snResolutions evs =
               (if b then (if status r = DONE
                           then [StatusOrValue (cap_commitLogIdAndTerm cap)] else [])
                else [sendSnapshotFailed])
           \<and> (\<forall>cs rest. (if b then serialInOrder cs rest else rest = [])
                 \<longrightarrow> serialInOrder (sendOf cap r # cs) (evs @ rest))"
  using assms
proof (induction "nat retry" arbitrary: retry tr)
  case 0
  then have "retry \<le> 0" by simp
  then have "sendLoop m cap r retry tr = Inr (False, tr @ [SnSetValue sendSnapshotFailed])"
    using "0.prems" by (rule sendLoop_exhausted)
  then show ?case
    by (intro exI [of _ False] exI [of _ "[SnSetValue sendSnapshotFailed]"]) simp
next
  case (Suc n)
  then have pos: "0 < retry" by simp
  let ?d = "fst (sendOf cap r)" and ?q = "snd (sendOf cap r)"
  show ?case
  proof (cases "future_sendSnapshot m (snNumSends tr) ?d ?q")
    case (Inl e)
    let ?tr = "tr @ [SnSend ?d ?q, SnRecv (Inl e), SnSleep 1]"
    have step: "sendLoop m cap r retry tr = sendLoop m cap r (retry - 1) ?tr"
      using pos Inl by (rule sendLoop_exception)
    have "n = nat (retry - 1)" using Suc.hyps(2) by simp
    moreover have "snResolutions ?tr = []"
      using Suc.prems by (simp add: snResolutions_append)
    ultimately obtain b evs where
      run: "sendLoop m cap r (retry - 1) ?tr = Inr (b, ?tr @ evs)"
      and res: "snResolutions evs =
               (if b then (if status r = DONE
                           then [StatusOrValue (cap_commitLogIdAndTerm cap)] else [])
                else [sendSnapshotFailed])"
      and ord: "\<forall>cs rest. (if b then serialInOrder cs rest else rest = [])
                 \<longrightarrow> serialInOrder (sendOf cap r # cs) (evs @ rest)"
      using Suc.hyps(1) [of "retry - 1" ?tr] by blast
    let ?evs = "[SnSend ?d ?q, SnRecv (Inl e), SnSleep 1] @ evs"
    have "sendLoop m cap r retry tr = Inr (b, tr @ ?evs)"
      using step run by simp
    moreover have "snResolutions ?evs =
               (if b then (if status r = DONE
                           then [StatusOrValue (cap_commitLogIdAndTerm cap)] else [])
                else [sendSnapshotFailed])"
      using res by simp
    moreover have "\<forall>cs rest. (if b then serialInOrder cs rest else rest = [])
                 \<longrightarrow> serialInOrder (sendOf cap r # cs) (?evs @ rest)"
      using ord by simp
    ultimately show ?thesis by blast
  next
    case (Inr resp)
    show ?thesis
    proof (cases "error_code resp = SUCCEEDED")
      case True
      let ?evs = "[SnSend ?d ?q, SnRecv (Inr resp)]
                  @ (if status r = DONE
                     then [SnSetValue (StatusOrValue (cap_commitLogIdAndTerm cap))] else [])"
      have "sendLoop m cap r retry tr = Inr (True, tr @ ?evs)"
        using sendLoop_acked [OF pos Inr True Suc.prems] .
      moreover have "snResolutions ?evs =
               (if status r = DONE then [StatusOrValue (cap_commitLogIdAndTerm cap)] else [])"
        by simp
      moreover have "\<forall>cs rest. serialInOrder cs rest
                 \<longrightarrow> serialInOrder (sendOf cap r # cs) (?evs @ rest)"
        using True by simp
      ultimately show ?thesis by (intro exI [of _ True] exI [of _ ?evs]) simp
    next
      case False
      let ?evs = "[SnSend ?d ?q, SnRecv (Inr resp), SnSetValue sendSnapshotFailed]"
      have "sendLoop m cap r retry tr = Inr (False, tr @ ?evs)"
        using sendLoop_refused [OF pos Inr False Suc.prems] by simp
      moreover have "snResolutions ?evs = [sendSnapshotFailed]"
        by simp
      moreover have "serialInOrder (sendOf cap r # cs) (?evs @ [])" for cs
        using False by simp
      ultimately show ?thesis by (intro exI [of _ False] exI [of _ ?evs]) simp
    qed
  qed
qed

lemma sendLoop_false_resolved:
  "sendLoop m cap r retry tr = Inr (False, tr') \<Longrightarrow> snResolutions tr' \<noteq> []"
proof (induction "nat retry" arbitrary: retry tr)
  case 0
  then have "retry \<le> 0" by simp
  then have "snSetValue sendSnapshotFailed tr = Inr tr'"
    using "0.prems" by (subst (asm) sendLoop.simps) (simp split: sum.splits)
  then show ?case
    by (auto dest: snSetValue_Inr simp: snResolutions_append)
next
  case (Suc n)
  then have pos: "0 < retry" and n: "n = nat (retry - 1)" by simp_all
  let ?d = "fst (sendOf cap r)" and ?q = "snd (sendOf cap r)"
  have IH: "snResolutions tr' \<noteq> []" if "sendLoop m cap r (retry - 1) t = Inr (False, tr')" for t
    using Suc.hyps(1) [OF n that] .
  show ?case
  proof (cases "future_sendSnapshot m (snNumSends tr) ?d ?q")
    case (Inl e)
    then show ?thesis
      using Suc.prems pos IH by (subst (asm) sendLoop.simps) simp
  next
    case (Inr resp)
    then show ?thesis
      using Suc.prems pos IH
      by (subst (asm) sendLoop.simps)
         (auto split: if_splits sum.splits dest!: snSetValue_Inr simp: snResolutions_append)
  qed
qed

section \<open>The callback and the iteration\<close>

lemma snapshotCallback_FAILED:
  assumes "status r = FAILED" and "snResolutions tr = []"
  shows "snapshotCallback m cap r tr = Inr (False, tr @ [SnSetValue sendSnapshotFailed])"
  using assms by (simp add: snapshotCallback_def snSetValue_pending)

lemma snapshotCallback_false_resolved:
  assumes "snapshotCallback m cap r tr = Inr (False, tr')"
  shows "snResolutions tr' \<noteq> []"
proof (cases "status r = FAILED")
  case True
  with assms have "snSetValue sendSnapshotFailed tr = Inr tr'"
    by (simp add: snapshotCallback_def split: sum.splits)
  then show ?thesis
    by (auto dest: snSetValue_Inr simp: snResolutions_append)
next
  case False
  with assms show ?thesis
    by (simp add: snapshotCallback_def sendLoop_false_resolved)
qed

lemma snapshotCallback_pending:
  assumes "snResolutions tr = []"
  shows "\<exists>b evs. snapshotCallback m cap r tr = Inr (b, tr @ evs)
           \<and> snResolutions evs =
               (if b then (if status r = DONE
                           then [StatusOrValue (cap_commitLogIdAndTerm cap)] else [])
                else [sendSnapshotFailed])
           \<and> (status r = FAILED \<longrightarrow> \<not> b \<and> snSends evs = [])
           \<and> (status r \<noteq> FAILED \<longrightarrow>
                (\<forall>cs rest. (if b then serialInOrder cs rest else rest = [])
                   \<longrightarrow> serialInOrder (sendOf cap r # cs) (evs @ rest)))"
proof (cases "status r = FAILED")
  case True
  then have "snapshotCallback m cap r tr = Inr (False, tr @ [SnSetValue sendSnapshotFailed])"
    using assms by (rule snapshotCallback_FAILED)
  with True show ?thesis
    by (intro exI [of _ False] exI [of _ "[SnSetValue sendSnapshotFailed]"]) simp
next
  case False
  then have "snapshotCallback m cap r tr = sendLoop m cap r (FLAGS_snapshot_send_retry_times m) tr"
    by (simp add: snapshotCallback_def)
  with False sendLoop_pending [OF assms, of m cap r "FLAGS_snapshot_send_retry_times m"]
  show ?thesis by simp
qed

text \<open>
  While the promise is unresolved, every invocation so far has returned true, and the
  iteration goes on with the next batch.
\<close>

lemma iteration_pending_prefix:
  assumes "accessAllRowsInSnapshot (snapshotCallback m cap) pre tr = Inr tr1"
    and "snResolutions tr1 = []"
  shows "accessAllRowsInSnapshot (snapshotCallback m cap) (pre @ post) tr =
         accessAllRowsInSnapshot (snapshotCallback m cap) post tr1"
  using assms
proof (induction pre arbitrary: tr)
  case Nil
  then show ?case by simp
next
  case (Cons r pre)
  show ?case
  proof (cases "snapshotCallback m cap r tr")
    case (Inl f)
    with Cons.prems(1) show ?thesis by simp
  next
    case (Inr res)
    obtain b tr' where res: "res = (b, tr')" by (cases res)
    show ?thesis
    proof (cases b)
      case True
      with Inr res Cons.prems have "accessAllRowsInSnapshot (snapshotCallback m cap) pre tr' = Inr tr1"
        by simp
      from Cons.IH [OF this Cons.prems(2)] Inr res True show ?thesis by simp
    next
      case False
      with Inr res Cons.prems(1) have "tr1 = tr'" by simp
      moreover have "snResolutions tr' \<noteq> []"
        using snapshotCallback_false_resolved [of m cap r tr tr'] Inr res False by simp
      ultimately show ?thesis using Cons.prems(2) by simp
    qed
  qed
qed

lemma iteration_serial:
  assumes "snResolutions tr = []"
    and "\<forall>r\<in>set (butlast batches). status r \<noteq> DONE"
  shows "\<exists>evs. accessAllRowsInSnapshot (snapshotCallback m cap) batches tr = Inr (tr @ evs)
           \<and> serialInOrder (map (sendOf cap) (takeWhile (\<lambda>r. status r \<noteq> FAILED) batches)) evs"
  using assms
proof (induction batches arbitrary: tr)
  case Nil
  show ?case by simp
next
  case (Cons r rs)
  obtain b evs1 where
    cb: "snapshotCallback m cap r tr = Inr (b, tr @ evs1)"
    and res: "snResolutions evs1 =
               (if b then (if status r = DONE
                           then [StatusOrValue (cap_commitLogIdAndTerm cap)] else [])
                else [sendSnapshotFailed])"
    and failed: "status r = FAILED \<longrightarrow> \<not> b \<and> snSends evs1 = []"
    and ord0: "status r \<noteq> FAILED \<longrightarrow>
                (\<forall>cs rest. (if b then serialInOrder cs rest else rest = [])
                   \<longrightarrow> serialInOrder (sendOf cap r # cs) (evs1 @ rest))"
    using snapshotCallback_pending [OF Cons.prems(1), of m cap r] by blast
  have ord: "serialInOrder (sendOf cap r # cs) (evs1 @ rest)"
    if "status r \<noteq> FAILED" "if b then serialInOrder cs rest else rest = []" for cs rest
    using ord0 that by blast
  show ?case
  proof (cases "status r = FAILED")
    case True
    then have "snapshotCallback m cap r tr = Inr (False, tr @ [SnSetValue sendSnapshotFailed])"
      using Cons.prems(1) by (rule snapshotCallback_FAILED)
    with True show ?thesis by simp
  next
    case notFailed: False
    show ?thesis
    proof (cases b)
      case False
      then have "accessAllRowsInSnapshot (snapshotCallback m cap) (r # rs) tr = Inr (tr @ evs1)"
        using cb by simp
      moreover have "serialInOrder
          (map (sendOf cap) (takeWhile (\<lambda>r. status r \<noteq> FAILED) (r # rs))) evs1"
        using ord [OF notFailed,
                of "map (sendOf cap) (takeWhile (\<lambda>r. status r \<noteq> FAILED) rs)" "[]"]
              False notFailed by simp
      ultimately show ?thesis by blast
    next
      case True
      show ?thesis
      proof (cases rs)
        case Nil
        then have "accessAllRowsInSnapshot (snapshotCallback m cap) (r # rs) tr = Inr (tr @ evs1)"
          using cb True by simp
        moreover have "serialInOrder
            (map (sendOf cap) (takeWhile (\<lambda>r. status r \<noteq> FAILED) (r # rs))) evs1"
          using ord [OF notFailed, of "[]" "[]"] True notFailed Nil by simp
        ultimately show ?thesis by blast
      next
        case (Cons r' rs')
        then have "status r \<noteq> DONE"
          using Cons.prems(2) by simp
        then have pend: "snResolutions (tr @ evs1) = []"
          using res True Cons.prems(1) by (simp add: snResolutions_append)
        have rest: "\<forall>r\<in>set (butlast rs). status r \<noteq> DONE"
          using Cons.prems(2) Cons by simp
        obtain evs2 where
          it: "accessAllRowsInSnapshot (snapshotCallback m cap) rs (tr @ evs1)
                 = Inr ((tr @ evs1) @ evs2)"
          and ord2: "serialInOrder
                 (map (sendOf cap) (takeWhile (\<lambda>r. status r \<noteq> FAILED) rs)) evs2"
          using Cons.IH [OF pend rest] by blast
        have "accessAllRowsInSnapshot (snapshotCallback m cap) (r # rs) tr
                = Inr (tr @ evs1 @ evs2)"
          using cb True it by simp
        moreover have "serialInOrder
            (map (sendOf cap) (takeWhile (\<lambda>r. status r \<noteq> FAILED) (r # rs))) (evs1 @ evs2)"
          using ord [OF notFailed,
                  of "map (sendOf cap) (takeWhile (\<lambda>r. status r \<noteq> FAILED) rs)" evs2]
                True ord2 notFailed by simp
        ultimately show ?thesis by blast
      qed
    qed
  qed
qed

lemma iteration_resolves_once:
  assumes "snResolutions tr = []"
    and "batches \<noteq> []"
    and "\<forall>r\<in>set (butlast batches). status r = MORE"
    and "status (last batches) \<noteq> MORE"
  shows "\<exists>evs v. accessAllRowsInSnapshot (snapshotCallback m cap) batches tr = Inr (tr @ evs)
           \<and> snResolutions evs = [v]"
  using assms
proof (induction batches arbitrary: tr)
  case Nil
  then show ?case by simp
next
  case (Cons r rs)
  obtain b evs1 where
    cb: "snapshotCallback m cap r tr = Inr (b, tr @ evs1)"
    and res: "snResolutions evs1 =
               (if b then (if status r = DONE
                           then [StatusOrValue (cap_commitLogIdAndTerm cap)] else [])
                else [sendSnapshotFailed])"
    and failed: "status r = FAILED \<longrightarrow> \<not> b \<and> snSends evs1 = []"
    using snapshotCallback_pending [OF Cons.prems(1), of m cap r] by blast
  show ?case
  proof (cases b)
    case False
    then have "accessAllRowsInSnapshot (snapshotCallback m cap) (r # rs) tr = Inr (tr @ evs1)"
      using cb by simp
    moreover have "snResolutions evs1 = [sendSnapshotFailed]"
      using res False by simp
    ultimately show ?thesis by blast
  next
    case True
    show ?thesis
    proof (cases rs)
      case Nil
      then have "status r \<noteq> MORE"
        using Cons.prems(4) by simp
      moreover have "status r \<noteq> FAILED"
        using failed True by blast
      ultimately have "status r = DONE"
        by (cases "status r") simp_all
      then have "snResolutions evs1 = [StatusOrValue (cap_commitLogIdAndTerm cap)]"
        using res True by simp
      moreover have "accessAllRowsInSnapshot (snapshotCallback m cap) (r # rs) tr = Inr (tr @ evs1)"
        using cb True Nil by simp
      ultimately show ?thesis by blast
    next
      case (Cons r' rs')
      then have "status r = MORE"
        using Cons.prems(3) by simp
      then have none: "snResolutions evs1 = []"
        using res True by simp
      then have pend: "snResolutions (tr @ evs1) = []"
        using Cons.prems(1) by (simp add: snResolutions_append)
      have "rs \<noteq> []" "\<forall>r\<in>set (butlast rs). status r = MORE"
           "status (last rs) \<noteq> MORE"
        using Cons.prems(3,4) Cons by simp_all
      from Cons.IH [OF pend this] obtain evs2 v where
        it: "accessAllRowsInSnapshot (snapshotCallback m cap) rs (tr @ evs1)
               = Inr ((tr @ evs1) @ evs2)"
        and one: "snResolutions evs2 = [v]"
        by blast
      have "accessAllRowsInSnapshot (snapshotCallback m cap) (r # rs) tr
              = Inr (tr @ evs1 @ evs2)"
        using cb True it by simp
      moreover have "snResolutions (evs1 @ evs2) = [v]"
        using none one by (simp add: snResolutions_append)
      ultimately show ?thesis by blast
    qed
  qed
qed

subsection \<open>One invocation of the callback\<close>

lemma fst_sendOf: "fst (sendOf cap r) = cap_dst cap"
  by (simp add: sendOf_def send_def)

lemma snapshotCallback_exhausted:
  assumes "snResolutions tr = []"
    and "status r \<noteq> FAILED"
    and "\<forall>k<n. future_sendSnapshot m (snNumSends tr + k) (fst (sendOf cap r)) (snd (sendOf cap r))
                  = Inl (e k)"
    and "FLAGS_snapshot_send_retry_times m \<le> int n"
  shows "snapshotCallback m cap r tr =
         Inr (False, tr @ failedAttempts (sendOf cap r) e (nat (FLAGS_snapshot_send_retry_times m))
                       @ [SnSetValue sendSnapshotFailed])"
proof -
  let ?B = "FLAGS_snapshot_send_retry_times m"
  let ?tr = "tr @ failedAttempts (sendOf cap r) e (nat ?B)"
  have "\<forall>k<nat ?B. future_sendSnapshot m (snNumSends tr + k) (fst (sendOf cap r))
                  (snd (sendOf cap r)) = Inl (e k)"
    using assms(3,4) by simp
  moreover have "int (nat ?B) \<le> ?B \<or> ?B < 0"
    by simp
  ultimately have "sendLoop m cap r ?B tr = sendLoop m cap r (?B - int (nat ?B)) ?tr"
    by (cases "?B < 0") (simp_all add: sendLoop_exceptions)
  moreover have "?B - int (nat ?B) \<le> 0"
    by simp
  moreover have "snResolutions ?tr = []"
    using assms(1) by (simp add: snResolutions_append snResolutions_failedAttempts)
  ultimately have "sendLoop m cap r ?B tr = Inr (False, ?tr @ [SnSetValue sendSnapshotFailed])"
    by (simp add: sendLoop_exhausted)
  then show ?thesis
    using assms(2) by (simp add: snapshotCallback_def)
qed

lemma snapshotCallback_acked:
  assumes "snResolutions tr = []"
    and "status r \<noteq> FAILED"
    and "\<forall>k<n. future_sendSnapshot m (snNumSends tr + k) (fst (sendOf cap r)) (snd (sendOf cap r))
                  = Inl (e k)"
    and "int n < FLAGS_snapshot_send_retry_times m"
    and "future_sendSnapshot m (snNumSends tr + n) (fst (sendOf cap r)) (snd (sendOf cap r))
           = Inr resp"
    and "error_code resp = SUCCEEDED"
  shows "snapshotCallback m cap r tr =
         Inr (True, tr @ failedAttempts (sendOf cap r) e n
                      @ [SnSend (fst (sendOf cap r)) (snd (sendOf cap r)), SnRecv (Inr resp)]
                      @ (if status r = DONE
                         then [SnSetValue (StatusOrValue (cap_commitLogIdAndTerm cap))] else []))"
proof -
  let ?B = "FLAGS_snapshot_send_retry_times m"
  let ?tr = "tr @ failedAttempts (sendOf cap r) e n"
  have "sendLoop m cap r ?B tr = sendLoop m cap r (?B - int n) ?tr"
    using assms(3,4) by (simp add: sendLoop_exceptions)
  moreover have "0 < ?B - int n"
    using assms(4) by simp
  moreover have "future_sendSnapshot m (snNumSends ?tr) (fst (sendOf cap r)) (snd (sendOf cap r))
                   = Inr resp"
    using assms(5) by (simp add: snNumSends_append snNumSends_failedAttempts)
  moreover have "snResolutions ?tr = []"
    using assms(1) by (simp add: snResolutions_append snResolutions_failedAttempts)
  ultimately have "sendLoop m cap r ?B tr =
         Inr (True, ?tr @ [SnSend (fst (sendOf cap r)) (snd (sendOf cap r)), SnRecv (Inr resp)]
                      @ (if status r = DONE
                         then [SnSetValue (StatusOrValue (cap_commitLogIdAndTerm cap))] else []))"
    using sendLoop_acked [of "?B - int n" m ?tr cap r resp] assms(6) by simp
  then show ?thesis
    using assms(2) by (simp add: snapshotCallback_def)
qed

lemma snapshotCallback_refused:
  assumes "snResolutions tr = []"
    and "status r \<noteq> FAILED"
    and "\<forall>k<n. future_sendSnapshot m (snNumSends tr + k) (fst (sendOf cap r)) (snd (sendOf cap r))
                  = Inl (e k)"
    and "int n < FLAGS_snapshot_send_retry_times m"
    and "future_sendSnapshot m (snNumSends tr + n) (fst (sendOf cap r)) (snd (sendOf cap r))
           = Inr resp"
    and "error_code resp \<noteq> SUCCEEDED"
  shows "snapshotCallback m cap r tr =
         Inr (False, tr @ failedAttempts (sendOf cap r) e n
                       @ [SnSend (fst (sendOf cap r)) (snd (sendOf cap r)), SnRecv (Inr resp),
                          SnSetValue sendSnapshotFailed])"
proof -
  let ?B = "FLAGS_snapshot_send_retry_times m"
  let ?tr = "tr @ failedAttempts (sendOf cap r) e n"
  have "sendLoop m cap r ?B tr = sendLoop m cap r (?B - int n) ?tr"
    using assms(3,4) by (simp add: sendLoop_exceptions)
  moreover have "0 < ?B - int n"
    using assms(4) by simp
  moreover have "future_sendSnapshot m (snNumSends ?tr) (fst (sendOf cap r)) (snd (sendOf cap r))
                   = Inr resp"
    using assms(5) by (simp add: snNumSends_append snNumSends_failedAttempts)
  moreover have "snResolutions ?tr = []"
    using assms(1) by (simp add: snResolutions_append snResolutions_failedAttempts)
  ultimately have "sendLoop m cap r ?B tr =
         Inr (False, ?tr @ [SnSend (fst (sendOf cap r)) (snd (sendOf cap r)), SnRecv (Inr resp),
                            SnSetValue sendSnapshotFailed])"
    using sendLoop_refused [of "?B - int n" m ?tr cap r resp] assms(6) by simp
  then show ?thesis
    using assms(2) by (simp add: snapshotCallback_def)
qed

text \<open>
  The traces of the example transfer: of its first batch alone, and of two batches, each
  answered with SUCCEEDED.
\<close>

lemma exTransfer_first:
  "sendSnapshot (exManager (\<lambda>k. exAnswer SUCCEEDED) 3) exPart exDst [exRows MORE] [] =
   Inr [SnSend exDst (snd (sendOf (capture (exPart 0) exDst) (exRows MORE))),
        SnRecv (exAnswer SUCCEEDED)]"
proof -
  let ?m = "exManager (\<lambda>k. exAnswer SUCCEEDED) 3"
  let ?cap = "capture (exPart 0) exDst"
  let ?tr1 = "[SnSend exDst (snd (sendOf ?cap (exRows MORE))), SnRecv (exAnswer SUCCEEDED)]"
  have "snapshotCallback ?m ?cap (exRows MORE) [] = Inr (True, ?tr1)"
    using snapshotCallback_acked [of "[]" "exRows MORE" 0 ?m ?cap "\<lambda>k. ''none''"
            "\<lparr>error_code = SUCCEEDED\<rparr>"]
    by (simp add: exRows_def exManager_def exAnswer_def fst_sendOf capture_def)
  then show ?thesis
    by (simp add: sendSnapshot_def)
qed

lemma exTransfer_trace:
  "sendSnapshot (exManager (\<lambda>k. exAnswer SUCCEEDED) 3) exPart exDst
     [exRows MORE, exRows DONE] [] =
   Inr [SnSend exDst (snd (sendOf (capture (exPart 0) exDst) (exRows MORE))),
        SnRecv (exAnswer SUCCEEDED),
        SnSend exDst (snd (sendOf (capture (exPart 0) exDst) (exRows DONE))),
        SnRecv (exAnswer SUCCEEDED),
        SnSetValue (StatusOrValue (100, 7))]"
proof -
  let ?m = "exManager (\<lambda>k. exAnswer SUCCEEDED) 3"
  let ?cap = "capture (exPart 0) exDst"
  let ?tr1 = "[SnSend exDst (snd (sendOf ?cap (exRows MORE))), SnRecv (exAnswer SUCCEEDED)]"
  have first: "snapshotCallback ?m ?cap (exRows MORE) [] = Inr (True, ?tr1)"
    using snapshotCallback_acked [of "[]" "exRows MORE" 0 ?m ?cap "\<lambda>k. ''none''"
            "\<lparr>error_code = SUCCEEDED\<rparr>"]
    by (simp add: exRows_def exManager_def exAnswer_def fst_sendOf capture_def)
  have second: "snapshotCallback ?m ?cap (exRows DONE) ?tr1 =
      Inr (True, ?tr1 @ [SnSend exDst (snd (sendOf ?cap (exRows DONE))),
                         SnRecv (exAnswer SUCCEEDED),
                         SnSetValue (StatusOrValue (100, 7))])"
    using snapshotCallback_acked [of ?tr1 "exRows DONE" 0 ?m ?cap "\<lambda>k. ''none''"
            "\<lparr>error_code = SUCCEEDED\<rparr>"]
    by (simp add: exRows_def exManager_def exAnswer_def fst_sendOf capture_def exPart_def)
  show ?thesis
    using first second by (simp add: sendSnapshot_def)
qed

section \<open>Properties of the snapshot transfer\<close>

text \<open>
  C4. In one invocation of the callback for a chunk, with the promise unresolved: a
  request is sent again only after an exception out of the wait for its answer, each
  time after a sleep of one second and with the same request. When the first n attempts
  throw and n is below the flag snapshot_send_retry_times, an answer to attempt n + 1
  ends the invocation: with SUCCEEDED it returns true, with any other code it resolves
  the promise with the error and returns false, the iteration's signal to stop, without
  another attempt. When as many attempts as the flag allows have thrown, it resolves the
  promise with the error and returns false. The flag's default is 3.
\<close>

theorem snapshot_chunk_retry:
  assumes "snResolutions tr = []"
    and "status r \<noteq> FAILED"
    and "\<forall>k<n. future_sendSnapshot m (snNumSends tr + k) (fst (sendOf cap r)) (snd (sendOf cap r))
                  = Inl (e k)"
  shows "let c = sendOf cap r; budget = FLAGS_snapshot_send_retry_times m
         in (budget \<le> int n \<longrightarrow>
               snapshotCallback m cap r tr =
                 Inr (False, tr @ failedAttempts c e (nat budget) @ [SnSetValue sendSnapshotFailed]))
          \<and> (int n < budget
                \<and> future_sendSnapshot m (snNumSends tr + n) (fst c) (snd c) = Inr resp
                \<and> error_code resp = SUCCEEDED \<longrightarrow>
               snapshotCallback m cap r tr =
                 Inr (True, tr @ failedAttempts c e n @ [SnSend (fst c) (snd c), SnRecv (Inr resp)]
                        @ (if status r = DONE
                           then [SnSetValue (StatusOrValue (cap_commitLogIdAndTerm cap))] else [])))
          \<and> (int n < budget
                \<and> future_sendSnapshot m (snNumSends tr + n) (fst c) (snd c) = Inr resp
                \<and> error_code resp \<noteq> SUCCEEDED \<longrightarrow>
               snapshotCallback m cap r tr =
                 Inr (False, tr @ failedAttempts c e n
                        @ [SnSend (fst c) (snd c), SnRecv (Inr resp),
                           SnSetValue sendSnapshotFailed]))
          \<and> snSends (failedAttempts c e n) = replicate n c
          \<and> DEFAULT_snapshot_send_retry_times = 3
          \<and> \<not> ok sendSnapshotFailed"
  unfolding Let_def
  using snapshotCallback_exhausted [OF assms] snapshotCallback_acked [OF assms]
    snapshotCallback_refused [OF assms]
  by (simp add: snSends_failedAttempts DEFAULT_snapshot_send_retry_times_def
        sendSnapshotFailed_def)

theorem snapshot_chunk_retry_witness:
  "snapshotCallback
     (exManager (\<lambda>k. if k < 2 then Inl ''timeout'' else exAnswer SUCCEEDED)
        DEFAULT_snapshot_send_retry_times)
     (capture (exPart 0) exDst) (exRows DONE) [] =
   Inr (True,
     [SnSend exDst (snd (sendOf (capture (exPart 0) exDst) (exRows DONE))),
      SnRecv (Inl ''timeout''), SnSleep 1,
      SnSend exDst (snd (sendOf (capture (exPart 0) exDst) (exRows DONE))),
      SnRecv (Inl ''timeout''), SnSleep 1,
      SnSend exDst (snd (sendOf (capture (exPart 0) exDst) (exRows DONE))),
      SnRecv (exAnswer SUCCEEDED),
      SnSetValue (StatusOrValue (100, 7))])"
proof -
  let ?m = "exManager (\<lambda>k. if k < 2 then Inl ''timeout'' else exAnswer SUCCEEDED)
              DEFAULT_snapshot_send_retry_times"
  let ?cap = "capture (exPart 0) exDst"
  have exc: "\<forall>k<2. future_sendSnapshot ?m (snNumSends [] + k) (fst (sendOf ?cap (exRows DONE)))
                 (snd (sendOf ?cap (exRows DONE))) = Inl ((\<lambda>k. ''timeout'') k)"
    by (simp add: exManager_def)
  have st: "status (exRows DONE) \<noteq> FAILED"
    by (simp add: exRows_def)
  have ack: "future_sendSnapshot ?m (snNumSends [] + 2) (fst (sendOf ?cap (exRows DONE)))
                 (snd (sendOf ?cap (exRows DONE))) = Inr \<lparr>error_code = SUCCEEDED\<rparr>"
    by (simp add: exManager_def exAnswer_def)
  have cp: "cap_commitLogIdAndTerm ?cap = (100, 7)" "cap_dst ?cap = exDst"
    by (simp_all add: capture_def exPart_def)
  show ?thesis
    using snapshot_chunk_retry [where tr = "[]" and r = "exRows DONE" and n = 2 and m = ?m
            and cap = ?cap and e = "\<lambda>k. ''timeout''" and resp = "\<lparr>error_code = SUCCEEDED\<rparr>",
            OF _ st exc] ack
    by (simp add: Let_def exManager_def DEFAULT_snapshot_send_retry_times_def numeral_2_eq_2
          fst_sendOf cp exAnswer_def exRows_def)
qed

text \<open>
  C5. When the batches before the last leave the promise unresolved, and the last batch
  has status DONE and is answered with SUCCEEDED (after n exceptions, n below the retry
  flag), sendSnapshot resolves the promise with the pair that lastCommittedLogId() gave
  when sendSnapshot read the part, before its first event. Every request of the transfer
  carries that pair, and its done flag is set exactly when the status of its batch is
  DONE.
\<close>

theorem snapshot_done_resolves_captured:
  assumes "status fin = DONE"
    and "sendSnapshot m part dst pre tr = Inr tr1"
    and "snResolutions tr1 = []"
    and "\<forall>k<n. future_sendSnapshot m (snNumSends tr1 + k) dst
                  (snd (sendOf (capture (part (length tr)) dst) fin)) = Inl (e k)"
    and "int n < FLAGS_snapshot_send_retry_times m"
    and "future_sendSnapshot m (snNumSends tr1 + n) dst
           (snd (sendOf (capture (part (length tr)) dst) fin)) = Inr resp"
    and "error_code resp = SUCCEEDED"
  shows "let cap = capture (part (length tr)) dst; c = sendOf cap fin
         in sendSnapshot m part dst (pre @ [fin]) tr =
              Inr (tr1 @ failedAttempts c e n
                     @ [SnSend dst (snd c), SnRecv (Inr resp),
                        SnSetValue (StatusOrValue (lastCommittedLogId (part (length tr))))])
          \<and> (\<forall>r. req_done (snd (sendOf cap r)) = (status r = DONE))
          \<and> (\<forall>r. (req_committed_log_id (snd (sendOf cap r)),
                    req_committed_log_term (snd (sendOf cap r)))
                   = lastCommittedLogId (part (length tr)))"
proof -
  let ?cap = "capture (part (length tr)) dst"
  let ?c = "sendOf ?cap fin"
  have dst: "fst (sendOf ?cap fin) = dst"
    by (simp add: fst_sendOf capture_def)
  have notFailed: "status fin \<noteq> FAILED"
    using assms(1) by simp
  have pre: "accessAllRowsInSnapshot (snapshotCallback m ?cap) pre tr = Inr tr1"
    using assms(2) by (simp add: sendSnapshot_def)
  have "sendSnapshot m part dst (pre @ [fin]) tr
          = accessAllRowsInSnapshot (snapshotCallback m ?cap) [fin] tr1"
    using iteration_pending_prefix [OF pre assms(3), of "[fin]"] by (simp add: sendSnapshot_def)
  moreover have "snapshotCallback m ?cap fin tr1 =
         Inr (True, tr1 @ failedAttempts ?c e n
                      @ [SnSend (fst ?c) (snd ?c), SnRecv (Inr resp)]
                      @ (if status fin = DONE
                         then [SnSetValue (StatusOrValue (cap_commitLogIdAndTerm ?cap))] else []))"
    using assms(4,6) by (intro snapshotCallback_acked assms(3,5,7) notFailed) (simp_all add: dst)
  ultimately have run: "sendSnapshot m part dst (pre @ [fin]) tr =
              Inr (tr1 @ failedAttempts ?c e n
                     @ [SnSend dst (snd ?c), SnRecv (Inr resp),
                        SnSetValue (StatusOrValue (lastCommittedLogId (part (length tr))))])"
    using assms(1) dst by (simp add: capture_def)
  have flags: "req_done (snd (sendOf ?cap r)) = (status r = DONE)" for r
    by (simp add: sendOf_def send_def)
  have pair: "(req_committed_log_id (snd (sendOf ?cap r)),
               req_committed_log_term (snd (sendOf ?cap r)))
                = lastCommittedLogId (part (length tr))" for r
    by (simp add: sendOf_def send_def capture_def)
  show ?thesis
    unfolding Let_def using run flags pair by simp
qed

theorem snapshot_done_resolves_captured_witness:
  "sendSnapshot (exManager (\<lambda>k. exAnswer SUCCEEDED) 3) exPart exDst
     [exRows MORE, exRows DONE] [] =
   Inr [SnSend exDst (snd (sendOf (capture (exPart 0) exDst) (exRows MORE))),
        SnRecv (exAnswer SUCCEEDED),
        SnSend exDst (snd (sendOf (capture (exPart 0) exDst) (exRows DONE))),
        SnRecv (exAnswer SUCCEEDED),
        SnSetValue (StatusOrValue (100, 7))]
   \<and> lastCommittedLogId (exPart 4) = (104, 7)"
proof -
  let ?m = "exManager (\<lambda>k. exAnswer SUCCEEDED) 3"
  let ?cap = "capture (exPart 0) exDst"
  let ?tr1 = "[SnSend exDst (snd (sendOf ?cap (exRows MORE))), SnRecv (exAnswer SUCCEEDED)]"
  have "snapshotCallback ?m ?cap (exRows MORE) [] =
          Inr (True, [] @ failedAttempts (sendOf ?cap (exRows MORE)) (\<lambda>k. ''none'') 0
                 @ [SnSend (fst (sendOf ?cap (exRows MORE)))
                      (snd (sendOf ?cap (exRows MORE))),
                    SnRecv (Inr \<lparr>error_code = SUCCEEDED\<rparr>)]
                 @ (if status (exRows MORE) = DONE
                    then [SnSetValue (StatusOrValue (cap_commitLogIdAndTerm ?cap))] else []))"
    by (rule snapshotCallback_acked) (simp_all add: exRows_def exManager_def exAnswer_def)
  then have pre: "sendSnapshot ?m exPart exDst [exRows MORE] [] = Inr ?tr1"
    by (simp add: sendSnapshot_def fst_sendOf capture_def exRows_def exAnswer_def)
  have st: "status (exRows DONE) = DONE"
    by (simp add: exRows_def)
  have exc: "\<forall>k<0. future_sendSnapshot ?m (snNumSends ?tr1 + k) exDst
                  (snd (sendOf (capture (exPart (length ([] :: sevent list))) exDst) (exRows DONE)))
                = Inl ((\<lambda>k. ''none'') k)"
    by simp
  have ack: "future_sendSnapshot ?m (snNumSends ?tr1 + 0) exDst
                  (snd (sendOf (capture (exPart (length ([] :: sevent list))) exDst) (exRows DONE)))
                = Inr \<lparr>error_code = SUCCEEDED\<rparr>"
    by (simp add: exManager_def exAnswer_def)
  show ?thesis
    using snapshot_done_resolves_captured [where fin = "exRows DONE" and m = ?m and part = exPart
            and dst = exDst and pre = "[exRows MORE]" and tr = "[]" and ?tr1.0 = ?tr1
            and n = 0 and e = "\<lambda>k. ''none''" and resp = "\<lparr>error_code = SUCCEEDED\<rparr>",
            OF st pre _ exc _ ack]
    by (simp add: Let_def exManager_def exAnswer_def exPart_def)
qed

text \<open>
  C7. When the batches before leave the promise unresolved and the next invocation of
  the callback has status FAILED: that invocation resolves the promise with the error
  and returns false without sending, and that is the end of the transfer's trace
  whatever batches would follow, so no chunk is sent after it.
\<close>

theorem snapshot_iteration_failed:
  assumes "status r = FAILED"
    and "sendSnapshot m part dst pre tr = Inr tr1"
    and "snResolutions tr1 = []"
  shows "snapshotCallback m (capture (part (length tr)) dst) r tr1 =
           Inr (False, tr1 @ [SnSetValue sendSnapshotFailed])
       \<and> sendSnapshot m part dst (pre @ r # post) tr = Inr (tr1 @ [SnSetValue sendSnapshotFailed])
       \<and> snSends (tr1 @ [SnSetValue sendSnapshotFailed]) = snSends tr1
       \<and> \<not> ok sendSnapshotFailed"
proof -
  let ?cap = "capture (part (length tr)) dst"
  have cb: "snapshotCallback m ?cap r tr1 = Inr (False, tr1 @ [SnSetValue sendSnapshotFailed])"
    using assms(1,3) by (rule snapshotCallback_FAILED)
  have pre: "accessAllRowsInSnapshot (snapshotCallback m ?cap) pre tr = Inr tr1"
    using assms(2) by (simp add: sendSnapshot_def)
  have "sendSnapshot m part dst (pre @ r # post) tr
          = accessAllRowsInSnapshot (snapshotCallback m ?cap) (r # post) tr1"
    using iteration_pending_prefix [OF pre assms(3), of "r # post"] by (simp add: sendSnapshot_def)
  then have "sendSnapshot m part dst (pre @ r # post) tr
          = Inr (tr1 @ [SnSetValue sendSnapshotFailed])"
    using cb by simp
  then show ?thesis
    using cb by (simp add: snSends_append sendSnapshotFailed_def)
qed

theorem snapshot_iteration_failed_witness:
  "sendSnapshot (exManager (\<lambda>k. exAnswer SUCCEEDED) 3) exPart exDst
     [exRows MORE, exRows FAILED, exRows MORE, exRows DONE] [] =
   Inr [SnSend exDst (snd (sendOf (capture (exPart 0) exDst) (exRows MORE))),
        SnRecv (exAnswer SUCCEEDED),
        SnSetValue sendSnapshotFailed]"
proof -
  have st: "status (exRows FAILED) = FAILED"
    by (simp add: exRows_def)
  have pend: "snResolutions
      [SnSend exDst (snd (sendOf (capture (exPart 0) exDst) (exRows MORE))),
       SnRecv (exAnswer SUCCEEDED)] = []"
    by simp
  show ?thesis
    using snapshot_iteration_failed [OF st exTransfer_first pend,
            of "[exRows MORE, exRows DONE]"]
    by simp
qed

text \<open>
  C8. For a transfer that starts with its promise unresolved and whose batches have
  status DONE at most on the last: the trace of the transfer keeps the order of
  \<open>serialInOrder\<close> for the requests of the batches up to the first with status FAILED.
  Every request is followed at once by its answer, so one request is in flight at a
  time; the requests follow the order of the batches; the request of the next batch is
  sent only after an answer with SUCCEEDED to the one before.
\<close>

theorem snapshot_chunks_serial_in_order:
  assumes "snResolutions tr = []"
    and "\<forall>r\<in>set (butlast batches). status r \<noteq> DONE"
  shows "\<exists>evs. sendSnapshot m part dst batches tr = Inr (tr @ evs)
           \<and> serialInOrder
               (map (sendOf (capture (part (length tr)) dst))
                  (takeWhile (\<lambda>r. status r \<noteq> FAILED) batches))
               evs"
  unfolding sendSnapshot_def
  using assms by (rule iteration_serial)

theorem snapshot_chunks_serial_in_order_witness:
  "serialInOrder
     [sendOf (capture (exPart 0) exDst) (exRows MORE),
      sendOf (capture (exPart 0) exDst) (exRows DONE)]
     [SnSend exDst (snd (sendOf (capture (exPart 0) exDst) (exRows MORE))),
      SnRecv (exAnswer SUCCEEDED),
      SnSend exDst (snd (sendOf (capture (exPart 0) exDst) (exRows DONE))),
      SnRecv (exAnswer SUCCEEDED),
      SnSetValue (StatusOrValue (100, 7))]"
proof -
  have wf: "\<forall>r\<in>set (butlast [exRows MORE, exRows DONE]). status r \<noteq> DONE"
    by (simp add: exRows_def)
  have pend: "snResolutions [] = []"
    by simp
  show ?thesis
    using snapshot_chunks_serial_in_order [OF pend wf, of "exManager (\<lambda>k. exAnswer SUCCEEDED) 3"
            exPart exDst]
    by (simp add: exTransfer_trace) (simp add: exRows_def)
qed

section \<open>One resolution for each operation\<close>

text \<open>
  C6. Each operation that comes to an end resolves its promise exactly once. For a chain
  operation: after n attempts answered with "leader changed", when attempt n + 1 either
  finds no leader or is answered with anything else (success, a failure code of the
  receiver, a failure of the transport), the operation returns and its part of the trace
  has one setValue. For sendSnapshot: when the iteration has batches with status
  MORE followed by one last batch with status DONE or FAILED, then whatever the
  remote end answers (success, a failure code, exceptions until the retry flag is used
  up) the transfer returns and its part of the trace has one setValue.
\<close>

theorem exactly_one_resolution:
  assumes "resolutions tr = []"
    and "\<forall>k<n. getLeader c (numLookups tr + k) s p = StatusOrValue (L k)"
    and "\<forall>k<n. getErrorCode (getResponse c (numSends tr + k) (evbAfter c evb k)
           (internalAddr c (L k)) r) = E_LEADER_CHANGED"
    and "\<not> ok (getLeader c (numLookups tr + n) s p)
         \<or> (getLeader c (numLookups tr + n) s p = StatusOrValue (L n)
            \<and> getErrorCode (getResponse c (numSends tr + n) (evbAfter c evb n)
                 (internalAddr c (L n)) r) \<noteq> E_LEADER_CHANGED)"
    and "snResolutions str = []"
    and "batches \<noteq> []"
    and "\<forall>b\<in>set (butlast batches). status b = MORE"
    and "status (last batches) \<noteq> MORE"
  shows "(s = ue_space_id q \<and> p = ue_part_id q \<and> r = ChainUpdateEdge (makeChainUpdateReq q t v)
            \<longrightarrow> (\<exists>new y. chainUpdateEdge c q t v evb tr = Some (Inr (tr @ new))
                    \<and> resolutions new = [y]))
       \<and> (s = ae_space_id a \<and> ae_parts a = (p, es) # rest \<and> r = ChainAddEdges (makeChainAddReq a t v)
            \<longrightarrow> (\<exists>new y. chainAddEdges c a t v evb tr = Some (Inr (tr @ new))
                    \<and> resolutions new = [y]))
       \<and> (s = de_space_id d \<and> de_parts d = (p, ks) # rest' \<and> r = ChainDeleteEdges (makeChainDeleteReq d x t)
            \<longrightarrow> (\<exists>new y. chainDeleteEdges c d x t evb tr = Some (Inr (tr @ new))
                    \<and> resolutions new = [y]))
       \<and> (\<exists>evs y. sendSnapshot m part dst batches str = Inr (str @ evs)
             \<and> snResolutions evs = [y])"
proof -
  let ?retries = "retryEvents c s p r evb L n"
  let ?lost = "?retries @ [EvGetLeader s p, EvSetValue E_SPACE_NOT_FOUND]"
  let ?code = "getErrorCode (getResponse c (numSends tr + n) (evbAfter c evb n)
                 (internalAddr c (L n)) r)"
  let ?answered = "?retries @ [EvGetLeader s p,
                     EvSend (evbAfter c evb n) (internalAddr c (L n)) r, EvSetValue ?code]"
  have lost: "resolutions ?lost = [E_SPACE_NOT_FOUND]"
    by (simp add: resolutions_append resolutions_retryEvents)
  have answered: "resolutions ?answered = [?code]"
    by (simp add: resolutions_append resolutions_retryEvents)
  have look: "\<forall>k\<le>n. getLeader c (numLookups tr + k) s p = StatusOrValue (L k)"
    if "getLeader c (numLookups tr + n) s p = StatusOrValue (L n)"
    using assms(2) that by (auto simp: le_less)
  have upd: "\<exists>new y. chainUpdateEdge c q t v evb tr = Some (Inr (tr @ new)) \<and> resolutions new = [y]"
    if eq: "s = ue_space_id q" "p = ue_part_id q" "r = ChainUpdateEdge (makeChainUpdateReq q t v)"
  proof (cases "ok (getLeader c (numLookups tr + n) s p)")
    case False
    then have "chainUpdateEdge c q t v evb tr = Some (Inr (tr @ ?lost))"
      using chainUpdateEdge_run_noLeader [of tr n c q L evb t v] assms(1-3) eq by simp
    with lost show ?thesis by blast
  next
    case True
    then have "chainUpdateEdge c q t v evb tr = Some (Inr (tr @ ?answered))"
      using chainUpdateEdge_run [of tr n c q L evb t v ?code] assms(1,3,4) look eq by simp
    with answered show ?thesis by blast
  qed
  have add: "\<exists>new y. chainAddEdges c a t v evb tr = Some (Inr (tr @ new)) \<and> resolutions new = [y]"
    if eq: "s = ae_space_id a" "ae_parts a = (p, es) # rest" "r = ChainAddEdges (makeChainAddReq a t v)"
  proof (cases "ok (getLeader c (numLookups tr + n) s p)")
    case False
    then have "chainAddEdges c a t v evb tr = Some (Inr (tr @ ?lost))"
      using chainAddEdges_run_noLeader [of a p es rest tr n c L evb t v] assms(1-3) eq by simp
    with lost show ?thesis by blast
  next
    case True
    then have "chainAddEdges c a t v evb tr = Some (Inr (tr @ ?answered))"
      using chainAddEdges_run [of a p es rest tr n c L evb t v ?code] assms(1,3,4) look eq by simp
    with answered show ?thesis by blast
  qed
  have del: "\<exists>new y. chainDeleteEdges c d x t evb tr = Some (Inr (tr @ new)) \<and> resolutions new = [y]"
    if eq: "s = de_space_id d" "de_parts d = (p, ks) # rest'" "r = ChainDeleteEdges (makeChainDeleteReq d x t)"
  proof (cases "ok (getLeader c (numLookups tr + n) s p)")
    case False
    then have "chainDeleteEdges c d x t evb tr = Some (Inr (tr @ ?lost))"
      using chainDeleteEdges_run_noLeader [of d p ks rest' tr n c L evb x t] assms(1-3) eq by simp
    with lost show ?thesis by blast
  next
    case True
    then have "chainDeleteEdges c d x t evb tr = Some (Inr (tr @ ?answered))"
      using chainDeleteEdges_run [of d p ks rest' tr n c L evb x t ?code] assms(1,3,4) look eq by simp
    with answered show ?thesis by blast
  qed
  have snap: "\<exists>evs y. sendSnapshot m part dst batches str = Inr (str @ evs) \<and> snResolutions evs = [y]"
    unfolding sendSnapshot_def
    using assms(5-8) by (rule iteration_resolves_once)
  show ?thesis
    using upd add del snap by blast
qed

theorem exactly_one_resolution_witness:
  "(\<exists>new y. chainUpdateEdge (exClient 1 exOk) exUpdate 5 None 9 [] = Some (Inr ([] @ new))
        \<and> resolutions new = [y])
   \<and> (\<exists>evs y. sendSnapshot (exManager (\<lambda>k. Inl ''timeout'') 3) exPart exDst [exRows DONE] []
                 = Inr ([] @ evs)
        \<and> snResolutions evs = [y])"
proof -
  let ?c = "exClient 1 exOk"
  let ?r = "ChainUpdateEdge (makeChainUpdateReq exUpdate 5 None)"
  have look: "\<forall>k<1. getLeader ?c (numLookups [] + k) 1 2 = StatusOrValue (exLeader k)"
    by (simp add: exClient_def)
  have resp: "\<forall>k<1. getErrorCode (getResponse ?c (numSends [] + k) (evbAfter ?c 9 k)
                 (internalAddr ?c (exLeader k)) ?r) = E_LEADER_CHANGED"
    by (simp add: exClient_def)
  have last: "\<not> ok (getLeader ?c (numLookups [] + 1) 1 2)
         \<or> (getLeader ?c (numLookups [] + 1) 1 2 = StatusOrValue (exLeader 1)
            \<and> getErrorCode (getResponse ?c (numSends [] + 1) (evbAfter ?c 9 1)
                 (internalAddr ?c (exLeader 1)) ?r) \<noteq> E_LEADER_CHANGED)"
    by (simp add: exClient_def exOk_def)
  have wf: "[exRows DONE] \<noteq> []" "\<forall>b\<in>set (butlast [exRows DONE]). status b = MORE"
    "status (last [exRows DONE]) \<noteq> MORE"
    by (simp_all add: exRows_def)
  have eq: "ue_space_id exUpdate = 1" "ue_part_id exUpdate = 2"
    by (simp_all add: exUpdate_def)
  show ?thesis
    using exactly_one_resolution [where tr = "[]" and n = 1 and c = ?c and s = 1 and p = 2
            and L = exLeader and evb = 9 and r = ?r and str = "[]" and batches = "[exRows DONE]"
            and q = exUpdate and t = 5 and v = None
            and m = "exManager (\<lambda>k. Inl ''timeout'') 3" and part = exPart and dst = exDst,
            OF _ look resp last _ wf]
    by (simp add: eq)
qed

end
